theory Spec2Isabelle
  imports Complex_Main "HOL-Library.Multiset"
begin

section \<open>Python exceptions and sequencing\<close>

text \<open>
  Every \<^verbatim>\<open>raise\<close>, failed \<^verbatim>\<open>assert\<close> and out-of-range access of the Python
  sources is a value \<open>Inl e\<close> of a result type \<open>py_error + 'a\<close>.
\<close>

datatype py_error =
    ValueError string
  | IndexError
  | KeyError
  | TypeError
  | AttributeError
  | AssertionError
  | RuntimeError string
  | FeaturesError string

definition bind_err :: "('e + 'a) \<Rightarrow> ('a \<Rightarrow> 'e + 'b) \<Rightarrow> 'e + 'b" where
  "bind_err m f = (case m of Inl e \<Rightarrow> Inl e | Inr x \<Rightarrow> f x)"

fun map_err :: "('a \<Rightarrow> 'e + 'b) \<Rightarrow> 'a list \<Rightarrow> 'e + 'b list" where
  "map_err f [] = Inr []"
| "map_err f (x # xs) =
     bind_err (f x) (\<lambda>y. bind_err (map_err f xs) (\<lambda>ys. Inr (y # ys)))"

definition list_get :: "'a list \<Rightarrow> nat \<Rightarrow> py_error + 'a" where
  "list_get xs i = (if i < length xs then Inr (xs ! i) else Inl IndexError)"

text \<open>\<^verbatim>\<open>xs.index(x)\<close>: position of the first occurrence.\<close>

fun index_of :: "'a list \<Rightarrow> 'a \<Rightarrow> nat option" where
  "index_of [] x = None"
| "index_of (y # ys) x = (if y = x then Some 0 else map_option Suc (index_of ys x))"

definition list_index :: "'a list \<Rightarrow> 'a \<Rightarrow> py_error + nat" where
  "list_index xs x =
     (case index_of xs x of None \<Rightarrow> Inl (ValueError ''x not in list'') | Some i \<Rightarrow> Inr i)"

section \<open>Legacy batch parser: \<^verbatim>\<open>get_hp_from_row\<close> (source/slideflow/model/utils.py)\<close>

text \<open>
  The \<^verbatim>\<open>HyperParameters\<close> class is declared outside the sources at hand, so the fresh
  object \<^verbatim>\<open>HyperParameters()\<close> is a parameter: the list returned by \<^verbatim>\<open>_get_args()\<close>
  and the current value of each attribute. The type of an attribute is the type of its
  current value, as \<^verbatim>\<open>type(getattr(hp, arg))\<close> computes it.
\<close>

datatype hp_value =
    HBool bool
  | HInt int
  | HFloat real
  | HStr string
  | HList "hp_value list"
  | HNone

datatype hp_type = TBool | TInt | TFloat | TStr | TList | TNoneType

fun type_of_value :: "hp_value \<Rightarrow> hp_type" where
  "type_of_value (HBool b) = TBool"
| "type_of_value (HInt i) = TInt"
| "type_of_value (HFloat r) = TFloat"
| "type_of_value (HStr s) = TStr"
| "type_of_value (HList vs) = TList"
| "type_of_value HNone = TNoneType"

record hyper_parameters =
  hp_args :: "string list"
  hp_attrs :: "string \<rightharpoonup> hp_value"

definition setattr :: "hyper_parameters \<Rightarrow> string \<Rightarrow> hp_value \<Rightarrow> hyper_parameters" where
  "setattr hp arg v = hp\<lparr>hp_attrs := (hp_attrs hp)(arg \<mapsto> v)\<rparr>"

text \<open>
  \<^verbatim>\<open>str.lower()\<close> on characters below code point 256: the ASCII capitals and the
  Latin-1 capitals (U+00C0 to U+00DE without the multiplication sign U+00D7) move up
  by 32, every other character stays.
\<close>

definition lower_char :: "char \<Rightarrow> char" where
  "lower_char c =
     (let n = (of_char c :: nat)
      in if (65 \<le> n \<and> n \<le> 90) \<or> (192 \<le> n \<and> n \<le> 222 \<and> n \<noteq> 215)
         then char_of (n + 32) else c)"

definition lower :: "string \<Rightarrow> string" where
  "lower s = map lower_char s"

text \<open>\<^verbatim>\<open>s.split(d)\<close> for a one-character separator.\<close>

fun split_on :: "char \<Rightarrow> string \<Rightarrow> string list" where
  "split_on d [] = [[]]"
| "split_on d (c # cs) =
     (if c = d then [] # split_on d cs
      else (case split_on d cs of
              [] \<Rightarrow> [[c]]
            | w # ws \<Rightarrow> (c # w) # ws))"

definition true_words :: "string list" where
  "true_words = [''true'', ''yes'', ''y'', ''t'']"

definition false_words :: "string list" where
  "false_words = [''false'', ''no'', ''n'', ''f'']"

text \<open>The message of the \<^verbatim>\<open>ValueError\<close> raised for an unreadable boolean cell.\<close>

definition bool_parse_message :: "string \<Rightarrow> string \<Rightarrow> string" where
  "bool_parse_message v arg =
     ''Unable to parse '' @ [CHR 0x22] @ v @ [CHR 0x22] @ '' for batch file argument ''
       @ [CHR 0x22] @ arg @ [CHR 0x22] @ '' into a bool.''"

text \<open>
  The body of the loop \<^verbatim>\<open>for arg in args\<close>. The constructors \<^verbatim>\<open>int\<close>, \<^verbatim>\<open>float\<close>,
  \<^verbatim>\<open>str\<close>, ... applied to a cell are Python builtins and enter as the parameter
  \<open>cons\<close>; logging has no effect on the result and is left out.
\<close>

definition set_arg ::
  "(hp_type \<Rightarrow> string \<Rightarrow> py_error + hp_value) \<Rightarrow> hyper_parameters \<Rightarrow>
   string list \<Rightarrow> string list \<Rightarrow> string \<Rightarrow> py_error + hyper_parameters" where
  "set_arg cons hp row header arg =
     bind_err (bind_err (list_index header arg) (list_get row)) (\<lambda>v.
       if arg \<in> set (hp_args hp) then
         if arg \<noteq> ''epochs'' then
           (case hp_attrs hp arg of
              None \<Rightarrow> Inl AttributeError
            | Some cur \<Rightarrow>
                let arg_type = type_of_value cur in
                if arg_type = TBool then
                  if lower v \<in> set true_words then Inr (setattr hp arg (HBool True))
                  else if lower v \<in> set false_words then Inr (setattr hp arg (HBool False))
                  else Inl (ValueError (bool_parse_message v arg))
                else if arg \<in> set [''L2_weight'', ''dropout''] then
                  bind_err (cons TFloat v) (\<lambda>x. Inr (setattr hp arg x))
                else
                  bind_err (cons arg_type v) (\<lambda>x. Inr (setattr hp arg x)))
         else
           bind_err
             (map_err (cons TInt)
                (split_on (CHR '','') (filter (\<lambda>c. c \<noteq> CHR ''['' \<and> c \<noteq> CHR '']'') v)))
             (\<lambda>epochs. Inr (setattr hp arg (HList epochs)))
       else Inr hp)"

fun hp_loop ::
  "(hp_type \<Rightarrow> string \<Rightarrow> py_error + hp_value) \<Rightarrow> hyper_parameters \<Rightarrow>
   string list \<Rightarrow> string list \<Rightarrow> string list \<Rightarrow> py_error + hyper_parameters" where
  "hp_loop cons hp row header [] = Inr hp"
| "hp_loop cons hp row header (arg # args) =
     bind_err (set_arg cons hp row header arg) (\<lambda>hp'. hp_loop cons hp' row header args)"

definition get_hp_from_row ::
  "(hp_type \<Rightarrow> string \<Rightarrow> py_error + hp_value) \<Rightarrow> hyper_parameters \<Rightarrow>
   string list \<Rightarrow> string list \<Rightarrow> py_error + (hyper_parameters \<times> string)" where
  "get_hp_from_row cons hp0 row header =
     bind_err (list_index header ''model_name'') (\<lambda>model_name_i.
       let args = take model_name_i header @ drop (model_name_i + 1) header in
       bind_err (list_get row model_name_i) (\<lambda>model_name.
         bind_err (hp_loop cons hp0 row header args) (\<lambda>hp. Inr (hp, model_name))))"

text \<open>A sample object and constructor table used to exercise the parser.\<close>

definition hp_demo :: hyper_parameters where
  "hp_demo = \<lparr>hp_args = [''model'', ''augment'', ''epochs''],
     hp_attrs = [''model'' \<mapsto> HStr ''xception'', ''augment'' \<mapsto> HBool False,
                 ''epochs'' \<mapsto> HList [HInt 1]]\<rparr>"

definition cons_demo :: "hp_type \<Rightarrow> string \<Rightarrow> py_error + hp_value" where
  "cons_demo t s = (if t = TStr then Inr (HStr s) else Inl (ValueError s))"

subsection \<open>Properties of the parser\<close>

lemma set_arg_hp_args:
  "set_arg cons hp row header a = Inr hp' \<Longrightarrow> hp_args hp' = hp_args hp"
  by (auto simp: set_arg_def bind_err_def setattr_def Let_def
      split: sum.splits option.splits if_splits)

lemma set_arg_other:
  "set_arg cons hp row header a = Inr hp' \<Longrightarrow> a \<noteq> arg \<Longrightarrow>
   hp_attrs hp' arg = hp_attrs hp arg"
  by (auto simp: set_arg_def bind_err_def setattr_def Let_def
      split: sum.splits option.splits if_splits)

lemma set_arg_bool:
  assumes "index_of header arg = Some i" "i < length row"
    "arg \<in> set (hp_args hp)" "arg \<noteq> ''epochs''" "hp_attrs hp arg = Some (HBool b)"
  shows "set_arg cons hp row header arg =
     (if lower (row ! i) \<in> set true_words then Inr (setattr hp arg (HBool True))
      else if lower (row ! i) \<in> set false_words then Inr (setattr hp arg (HBool False))
      else Inl (ValueError (bool_parse_message (row ! i) arg)))"
  using assms by (simp add: set_arg_def bind_err_def list_index_def list_get_def)

lemma set_arg_bool_Inr:
  assumes "set_arg cons hp row header arg = Inr hp'"
    "arg \<in> set (hp_args hp)" "arg \<noteq> ''epochs''" "hp_attrs hp arg = Some (HBool b)"
    "index_of header arg = Some i"
  shows "lower (row ! i) \<in> set true_words \<union> set false_words \<and>
         hp_attrs hp' arg = Some (HBool (lower (row ! i) \<in> set true_words))"
  using assms
  by (auto simp: set_arg_def bind_err_def list_index_def list_get_def setattr_def
      split: if_splits)

lemma hp_loop_bool:
  assumes "hp_loop cons hp row header args = Inr hp'"
    "arg \<in> set (hp_args hp)" "arg \<noteq> ''epochs''" "hp_attrs hp arg = Some (HBool b)"
    "index_of header arg = Some i"
  shows "hp_args hp' = hp_args hp \<and>
     (if arg \<in> set args
      then lower (row ! i) \<in> set true_words \<union> set false_words \<and>
           hp_attrs hp' arg = Some (HBool (lower (row ! i) \<in> set true_words))
      else hp_attrs hp' arg = hp_attrs hp arg)"
  using assms
proof (induction args arbitrary: hp b)
  case Nil
  then show ?case by simp
next
  case (Cons a args)
  from Cons.prems(1) obtain hp1 where
    s: "set_arg cons hp row header a = Inr hp1" and
    l: "hp_loop cons hp1 row header args = Inr hp'"
    by (auto simp: bind_err_def split: sum.splits)
  have a1: "hp_args hp1 = hp_args hp" using s by (rule set_arg_hp_args)
  show ?case
  proof (cases "a = arg")
    case True
    from set_arg_bool_Inr[OF s[unfolded True] Cons.prems(2,3,4,5)]
    have r: "lower (row ! i) \<in> set true_words \<union> set false_words"
      and v: "hp_attrs hp1 arg = Some (HBool (lower (row ! i) \<in> set true_words))"
      by simp_all
    from Cons.IH[OF l _ Cons.prems(3) v Cons.prems(5)] a1 Cons.prems(2) True r v
    show ?thesis by (auto split: if_splits)
  next
    case False
    have v: "hp_attrs hp1 arg = Some (HBool b)"
      using set_arg_other[OF s False] Cons.prems(4) by simp
    from Cons.IH[OF l _ Cons.prems(3) v Cons.prems(5)] a1 Cons.prems(2,4) False v
    show ?thesis by (auto split: if_splits)
  qed
qed

lemma index_of_Some_iff: "index_of xs x = Some i \<Longrightarrow> i < length xs \<and> xs ! i = x"
  by (induction xs arbitrary: i) (auto split: if_splits)

lemma mem_args:
  assumes "index_of header m = Some k" "arg \<in> set header" "arg \<noteq> m"
  shows "arg \<in> set (take k header @ drop (k + 1) header)"
proof -
  define xs where "xs = take k header"
  define ys where "ys = drop (Suc k) header"
  from index_of_Some_iff[OF assms(1)] have k: "k < length header" "header ! k = m"
    by simp_all
  have h: "header = xs @ m # ys"
    unfolding xs_def ys_def using id_take_nth_drop[OF k(1)] k(2) by simp
  from assms(2) have "arg \<in> set (xs @ m # ys)" using h by simp
  with assms(3) have "arg \<in> set (xs @ ys)" by auto
  then show ?thesis by (simp add: xs_def ys_def)
qed

lemma get_hp_from_row_loop:
  assumes "get_hp_from_row cons hp0 row header = Inr (hp', name)"
  shows "\<exists>k. index_of header ''model_name'' = Some k \<and>
     hp_loop cons hp0 row header (take k header @ drop (k + 1) header) = Inr hp'"
  using assms
  by (auto simp: get_hp_from_row_def bind_err_def list_index_def Let_def
      split: sum.splits option.splits)

lemma words_disjoint: "w \<in> set false_words \<Longrightarrow> w \<notin> set true_words"
  by (auto simp: true_words_def false_words_def)

lemma hp_loop_append:
  "hp_loop cons hp row header (xs @ ys) =
     bind_err (hp_loop cons hp row header xs) (\<lambda>h. hp_loop cons h row header ys)"
proof (induction xs arbitrary: hp)
  case Nil
  show ?case by (simp add: bind_err_def)
next
  case (Cons a xs)
  show ?case
  proof (cases "set_arg cons hp row header a")
    case (Inl e)
    then show ?thesis by (simp add: bind_err_def)
  next
    case (Inr h)
    then show ?thesis using Cons.IH[of h] by (simp add: bind_err_def)
  qed
qed

lemma get_hp_from_row_split:
  assumes "index_of header ''model_name'' = Some k" and "k < length row"
    and "take k header @ drop (k + 1) header = pre @ arg # post"
    and "hp_loop cons hp0 row header pre = Inr hp1"
  shows "get_hp_from_row cons hp0 row header =
     bind_err (set_arg cons hp1 row header arg) (\<lambda>h.
       bind_err (hp_loop cons h row header post) (\<lambda>hp. Inr (hp, row ! k)))"
proof -
  have l: "hp_loop cons hp0 row header (pre @ arg # post) =
      bind_err (set_arg cons hp1 row header arg) (\<lambda>h. hp_loop cons h row header post)"
    unfolding hp_loop_append[of cons hp0 row header pre "arg # post"]
    using assms(4) by (simp add: bind_err_def)
  have "get_hp_from_row cons hp0 row header =
      bind_err (hp_loop cons hp0 row header (pre @ arg # post)) (\<lambda>hp. Inr (hp, row ! k))"
    using assms(1,2,3)
    by (simp add: get_hp_from_row_def list_index_def list_get_def bind_err_def Let_def)
  also have "\<dots> = bind_err (set_arg cons hp1 row header arg) (\<lambda>h.
       bind_err (hp_loop cons h row header post) (\<lambda>hp. Inr (hp, row ! k)))"
    unfolding l by (simp add: bind_err_def split: sum.splits)
  finally show ?thesis .
qed

lemma get_hp_from_row_name:
  assumes "get_hp_from_row cons hp0 row header = Inr (hp', name)"
    and "index_of header ''model_name'' = Some k"
  shows "name = row ! k"
  using assms
  by (auto simp: get_hp_from_row_def bind_err_def list_index_def list_get_def Let_def
      split: sum.splits if_splits)

text \<open>
  C9. Let the header hold \<open>model_name\<close> at position \<open>k\<close>, let the row have a cell there,
  and let \<open>arg\<close> be a column of the header (the columns before it are \<open>pre\<close>, those after
  it \<open>post\<close>) that is boolean-typed: a recognised argument other than \<open>epochs\<close> whose value
  in the fresh object is a boolean. Let the cell of \<open>arg\<close> exist, and let the columns
  before it parse, leaving the object \<open>hp1\<close>. Then \<open>get_hp_from_row\<close> itself behaves as
  follows. If the lower-cased cell is one of \<open>true\<close>, \<open>yes\<close>, \<open>y\<close>, \<open>t\<close>, the attribute is
  set to \<open>True\<close> and the call goes on with the remaining columns; if it is one of \<open>false\<close>,
  \<open>no\<close>, \<open>n\<close>, \<open>f\<close>, the attribute is set to \<open>False\<close> likewise; for any other text the
  call raises the \<open>ValueError\<close> whose message quotes the cell as written and the field
  name. Whenever the call returns, the cell was a recognised word, the returned object
  carries its coerced value, and the returned name is the cell at position \<open>k\<close>.
\<close>

theorem get_hp_from_row_bool:
  assumes "index_of header ''model_name'' = Some k" and "k < length row"
    and "take k header @ drop (k + 1) header = pre @ arg # post"
    and "hp_loop cons hp0 row header pre = Inr hp1"
    and "index_of header arg = Some i" and "i < length row"
    and "arg \<in> set (hp_args hp0)" and "arg \<noteq> ''epochs''"
    and "hp_attrs hp0 arg = Some (HBool b)"
  shows "(lower (row ! i) \<in> set true_words \<longrightarrow>
            get_hp_from_row cons hp0 row header =
              bind_err (hp_loop cons (setattr hp1 arg (HBool True)) row header post)
                (\<lambda>hp. Inr (hp, row ! k)))
       \<and> (lower (row ! i) \<in> set false_words \<longrightarrow>
            get_hp_from_row cons hp0 row header =
              bind_err (hp_loop cons (setattr hp1 arg (HBool False)) row header post)
                (\<lambda>hp. Inr (hp, row ! k)))
       \<and> (lower (row ! i) \<notin> set true_words \<union> set false_words \<longrightarrow>
            get_hp_from_row cons hp0 row header =
              Inl (ValueError (''Unable to parse '' @ [CHR 0x22] @ row ! i @ [CHR 0x22]
                 @ '' for batch file argument '' @ [CHR 0x22] @ arg @ [CHR 0x22]
                 @ '' into a bool.'')))
       \<and> (\<forall>hp' name. get_hp_from_row cons hp0 row header = Inr (hp', name) \<longrightarrow>
            lower (row ! i) \<in> set true_words \<union> set false_words \<and>
            hp_attrs hp' arg = Some (HBool (lower (row ! i) \<in> set true_words)) \<and>
            name = row ! k)"
proof -
  from hp_loop_bool[OF assms(4) assms(7) assms(8) assms(9) assms(5)]
  have a1: "arg \<in> set (hp_args hp1)" and "\<exists>c. hp_attrs hp1 arg = Some (HBool c)"
    using assms(7) assms(9) by (auto split: if_splits)
  then obtain c where v1: "hp_attrs hp1 arg = Some (HBool c)" by (elim exE)
  note step = set_arg_bool[OF assms(5) assms(6) a1 assms(8) v1, of cons]
  note whole = get_hp_from_row_split[OF assms(1) assms(2) assms(3) assms(4)]
  have p1: "lower (row ! i) \<in> set true_words \<longrightarrow>
      get_hp_from_row cons hp0 row header =
        bind_err (hp_loop cons (setattr hp1 arg (HBool True)) row header post)
          (\<lambda>hp. Inr (hp, row ! k))"
    unfolding whole step by (simp add: bind_err_def)
  have p2: "lower (row ! i) \<in> set false_words \<longrightarrow>
      get_hp_from_row cons hp0 row header =
        bind_err (hp_loop cons (setattr hp1 arg (HBool False)) row header post)
          (\<lambda>hp. Inr (hp, row ! k))"
    unfolding whole step using words_disjoint[of "lower (row ! i)"]
    by (simp add: bind_err_def)
  have p3: "lower (row ! i) \<notin> set true_words \<union> set false_words \<longrightarrow>
      get_hp_from_row cons hp0 row header =
        Inl (ValueError (''Unable to parse '' @ [CHR 0x22] @ row ! i @ [CHR 0x22]
           @ '' for batch file argument '' @ [CHR 0x22] @ arg @ [CHR 0x22]
           @ '' into a bool.''))"
    unfolding whole step by (simp add: bind_err_def bool_parse_message_def)
  have p4: "\<forall>hp' name. get_hp_from_row cons hp0 row header = Inr (hp', name) \<longrightarrow>
      lower (row ! i) \<in> set true_words \<union> set false_words \<and>
      hp_attrs hp' arg = Some (HBool (lower (row ! i) \<in> set true_words)) \<and>
      name = row ! k"
  proof (intro allI impI)
    fix hp' name
    assume g: "get_hp_from_row cons hp0 row header = Inr (hp', name)"
    from get_hp_from_row_loop[OF g] assms(1) have
      l: "hp_loop cons hp0 row header (take k header @ drop (k + 1) header) = Inr hp'"
      by auto
    have m: "arg \<in> set (take k header @ drop (k + 1) header)"
      unfolding assms(3) by simp
    from hp_loop_bool[OF l assms(7) assms(8) assms(9) assms(5)] m
    have "lower (row ! i) \<in> set true_words \<union> set false_words \<and>
      hp_attrs hp' arg = Some (HBool (lower (row ! i) \<in> set true_words))"
      by simp
    with get_hp_from_row_name[OF g assms(1)]
    show "lower (row ! i) \<in> set true_words \<union> set false_words \<and>
      hp_attrs hp' arg = Some (HBool (lower (row ! i) \<in> set true_words)) \<and>
      name = row ! k" by simp
  qed
  from p1 p2 p3 p4 show ?thesis by (intro conjI)
qed

lemma hp_loop_model_demo:
  "hp_loop cons_demo hp_demo [''resnet'', v, ''m1''] [''model'', ''augment'', ''model_name'']
     [''model''] = Inr (setattr hp_demo ''model'' (HStr ''resnet''))"
  by (simp add: set_arg_def bind_err_def list_index_def list_get_def hp_demo_def
      cons_demo_def)

theorem get_hp_from_row_bool_witness:
  "get_hp_from_row cons_demo hp_demo [''resnet'', ''Yes'', ''m1'']
       [''model'', ''augment'', ''model_name'']
     = Inr (setattr (setattr hp_demo ''model'' (HStr ''resnet'')) ''augment'' (HBool True),
            ''m1'')
   \<and> get_hp_from_row cons_demo hp_demo [''resnet'', ''NO'', ''m1'']
       [''model'', ''augment'', ''model_name'']
     = Inr (setattr (setattr hp_demo ''model'' (HStr ''resnet'')) ''augment'' (HBool False),
            ''m1'')
   \<and> get_hp_from_row cons_demo hp_demo [''resnet'', ''maybe'', ''m1'']
       [''model'', ''augment'', ''model_name'']
     = Inl (ValueError (''Unable to parse '' @ [CHR 0x22] @ ''maybe'' @ [CHR 0x22]
          @ '' for batch file argument '' @ [CHR 0x22] @ ''augment'' @ [CHR 0x22]
          @ '' into a bool.''))"
proof -
  let ?h = "[''model'', ''augment'', ''model_name'']"
  have k: "index_of ?h ''model_name'' = Some 2" by simp
  have s: "take 2 ?h @ drop (2 + 1) ?h = [''model''] @ ''augment'' # []" by simp
  have i: "index_of ?h ''augment'' = Some 1" by simp
  have a: "''augment'' \<in> set (hp_args hp_demo)" by (simp add: hp_demo_def)
  have e: "''augment'' \<noteq> ''epochs''" by simp
  have v: "hp_attrs hp_demo ''augment'' = Some (HBool False)" by (simp add: hp_demo_def)
  have y: "lower ''Yes'' \<in> set true_words" by code_simp
  have f: "lower ''NO'' \<in> set false_words" by code_simp
  have n: "lower ''maybe'' \<notin> set true_words \<union> set false_words" by code_simp
  have k1: "(2::nat) < length [''resnet'', ''Yes'', ''m1'']" by simp
  have k2: "(2::nat) < length [''resnet'', ''NO'', ''m1'']" by simp
  have k3: "(2::nat) < length [''resnet'', ''maybe'', ''m1'']" by simp
  have i1: "(1::nat) < length [''resnet'', ''Yes'', ''m1'']" by simp
  have i2: "(1::nat) < length [''resnet'', ''NO'', ''m1'']" by simp
  have i3: "(1::nat) < length [''resnet'', ''maybe'', ''m1'']" by simp
  from get_hp_from_row_bool[OF k k1 s hp_loop_model_demo i i1 a e v] y
  have r1: "get_hp_from_row cons_demo hp_demo [''resnet'', ''Yes'', ''m1''] ?h
     = Inr (setattr (setattr hp_demo ''model'' (HStr ''resnet'')) ''augment'' (HBool True),
            ''m1'')" by (simp add: bind_err_def)
  from get_hp_from_row_bool[OF k k2 s hp_loop_model_demo i i2 a e v] f
  have r2: "get_hp_from_row cons_demo hp_demo [''resnet'', ''NO'', ''m1''] ?h
     = Inr (setattr (setattr hp_demo ''model'' (HStr ''resnet'')) ''augment'' (HBool False),
            ''m1'')" by (simp add: bind_err_def)
  from get_hp_from_row_bool[OF k k3 s hp_loop_model_demo i i3 a e v] n
  have r3: "get_hp_from_row cons_demo hp_demo [''resnet'', ''maybe'', ''m1''] ?h
     = Inl (ValueError (''Unable to parse '' @ [CHR 0x22] @ ''maybe'' @ [CHR 0x22]
          @ '' for batch file argument '' @ [CHR 0x22] @ ''augment'' @ [CHR 0x22]
          @ '' into a bool.''))" by simp
  from r1 r2 r3 show ?thesis by (intro conjI)
qed

text \<open>
  The premise on the columns before the boolean one is needed: a column that fails
  earlier raises its own error first. Here the \<open>epochs\<close> cell is no list of integers.
\<close>

lemma get_hp_from_row_earlier_error:
  "get_hp_from_row cons_demo hp_demo [''x'', ''maybe'', ''m1'']
       [''epochs'', ''augment'', ''model_name'']
     = Inl (ValueError ''x'')"
  by (simp add: get_hp_from_row_def set_arg_def bind_err_def list_index_def list_get_def
      hp_demo_def cons_demo_def)

section \<open>Studio widget: \<^verbatim>\<open>MILWidget.predict_slide\<close> (studio/widgets/mil.py)\<close>

text \<open>
  The widget and the viewer it belongs to are a record that each method takes and returns.
  A tile size in microns is an integer or a magnification string; Python compares the two
  kinds as unequal. A toast keeps the arguments of \<^verbatim>\<open>create_toast\<close>; the text of the
  mismatch toast is kept as its four format arguments.
\<close>

datatype tile_um = UmInt int | UmStr string

record wsi =
  wsi_tile_px :: int
  wsi_tile_um :: tile_um

record extractor_params =
  ep_tile_px :: int
  ep_tile_um :: tile_um

datatype toast =
    TileSizeMismatch int tile_um int tile_um
  | GeneratingPrediction

datatype thread = Thread_predict_slide

record mil_widget =
  viz_wsi :: "wsi option"
  viz_toasts :: "toast list"
  viz_message :: "string option"
  extractor_params :: "extractor_params option"
  rendering_message :: string
  widget_toast :: "toast option"
  widget_thread :: "thread option"

text \<open>
  \<^verbatim>\<open>verify_tile_size\<close>: subscripting \<^verbatim>\<open>None\<close> raises \<^verbatim>\<open>TypeError\<close>, reading an
  attribute of \<^verbatim>\<open>None\<close> raises \<^verbatim>\<open>AttributeError\<close>. Returns the flag and the new state.
\<close>

definition verify_tile_size :: "mil_widget \<Rightarrow> py_error + (bool \<times> mil_widget)" where
  "verify_tile_size w =
     (case extractor_params w of
        None \<Rightarrow> Inl TypeError
      | Some ep \<Rightarrow>
          let mil_tile_um = ep_tile_um ep; mil_tile_px = ep_tile_px ep in
          (case viz_wsi w of
             None \<Rightarrow> Inl AttributeError
           | Some s \<Rightarrow>
               if wsi_tile_px s \<noteq> mil_tile_px \<or> wsi_tile_um s \<noteq> mil_tile_um then
                 Inr (False, w\<lparr>viz_toasts := viz_toasts w @
                        [TileSizeMismatch mil_tile_px mil_tile_um (wsi_tile_px s) (wsi_tile_um s)]\<rparr>)
               else Inr (True, w)))"

definition predict_slide :: "mil_widget \<Rightarrow> py_error + mil_widget" where
  "predict_slide w =
     bind_err (verify_tile_size w) (\<lambda>(ok, w1).
       if \<not> ok then Inr w1
       else Inr (w1\<lparr>viz_message := Some (rendering_message w1),
                    viz_toasts := viz_toasts w1 @ [GeneratingPrediction],
                    widget_toast := Some GeneratingPrediction,
                    widget_thread := Some Thread_predict_slide\<rparr>))"

text \<open>A widget with a 299 px / 302 um model loaded over a 256 px / 128 um slide.\<close>

definition widget_mismatch :: mil_widget where
  "widget_mismatch =
     \<lparr>viz_wsi = Some \<lparr>wsi_tile_px = 256, wsi_tile_um = UmInt 128\<rparr>,
      viz_toasts = [], viz_message = None,
      extractor_params = Some \<lparr>ep_tile_px = 299, ep_tile_um = UmInt 302\<rparr>,
      rendering_message = ''Generating whole-slide prediction...'',
      widget_toast = None, widget_thread = None\<rparr>"

definition widget_match :: mil_widget where
  "widget_match =
     \<lparr>viz_wsi = Some \<lparr>wsi_tile_px = 299, wsi_tile_um = UmInt 302\<rparr>,
      viz_toasts = [], viz_message = None,
      extractor_params = Some \<lparr>ep_tile_px = 299, ep_tile_um = UmInt 302\<rparr>,
      rendering_message = ''Generating whole-slide prediction...'',
      widget_toast = None, widget_thread = None\<rparr>"

text \<open>
  C4, as stated, fails: with a model whose tile size differs from the open slide's,
  \<open>predict_slide\<close> alone (no earlier call of \<open>verify_tile_size\<close> by the caller) starts no
  thread and sets no message; it leaves the mismatch toast and returns.
\<close>

theorem predict_slide_checks_counterexample:
  "predict_slide widget_mismatch =
     Inr (widget_mismatch\<lparr>viz_toasts := [TileSizeMismatch 299 (UmInt 302) 256 (UmInt 128)]\<rparr>)
   \<and> widget_thread (projr (predict_slide widget_mismatch)) = None
   \<and> viz_message (projr (predict_slide widget_mismatch)) = None"
  by (simp add: predict_slide_def verify_tile_size_def widget_mismatch_def bind_err_def)

text \<open>
  C4, amended. \<open>predict_slide\<close> calls \<open>verify_tile_size\<close> itself. With a model loaded
  and a slide open: if the model's tile px or um differs from the slide's, the only
  effect is one error toast carrying both sizes, and no prediction thread is started;
  if both agree, the rendering message is set, the progress toast is shown and kept,
  and the prediction thread is started.
\<close>

theorem predict_slide_verifies:
  assumes "extractor_params w = Some ep" and "viz_wsi w = Some s"
  shows "(wsi_tile_px s \<noteq> ep_tile_px ep \<or> wsi_tile_um s \<noteq> ep_tile_um ep \<longrightarrow>
            predict_slide w =
              Inr (w\<lparr>viz_toasts := viz_toasts w @
                [TileSizeMismatch (ep_tile_px ep) (ep_tile_um ep) (wsi_tile_px s) (wsi_tile_um s)]\<rparr>))
       \<and> (wsi_tile_px s = ep_tile_px ep \<and> wsi_tile_um s = ep_tile_um ep \<longrightarrow>
            predict_slide w =
              Inr (w\<lparr>viz_message := Some (rendering_message w),
                     viz_toasts := viz_toasts w @ [GeneratingPrediction],
                     widget_toast := Some GeneratingPrediction,
                     widget_thread := Some Thread_predict_slide\<rparr>))"
  using assms by (simp add: predict_slide_def verify_tile_size_def bind_err_def)

theorem predict_slide_verifies_witness:
  "widget_thread (projr (predict_slide widget_match)) = Some Thread_predict_slide
   \<and> widget_thread (projr (predict_slide widget_mismatch)) = None"
proof -
  have e1: "extractor_params widget_match = Some \<lparr>ep_tile_px = 299, ep_tile_um = UmInt 302\<rparr>"
    and s1: "viz_wsi widget_match = Some \<lparr>wsi_tile_px = 299, wsi_tile_um = UmInt 302\<rparr>"
    by (simp_all add: widget_match_def)
  have e2: "extractor_params widget_mismatch = Some \<lparr>ep_tile_px = 299, ep_tile_um = UmInt 302\<rparr>"
    and s2: "viz_wsi widget_mismatch = Some \<lparr>wsi_tile_px = 256, wsi_tile_um = UmInt 128\<rparr>"
    by (simp_all add: widget_mismatch_def)
  from predict_slide_verifies[OF e1 s1]
  have r1: "widget_thread (projr (predict_slide widget_match)) = Some Thread_predict_slide"
    by simp
  from predict_slide_verifies[OF e2 s2]
  have r2: "widget_thread (projr (predict_slide widget_mismatch)) = None"
    by (simp add: widget_mismatch_def)
  from r1 r2 show ?thesis by (rule conjI)
qed

section \<open>Hyperparameter search spaces: \<^verbatim>\<open>create_search_space\<close> (util/smac_utils.py)\<close>

text \<open>
  Values that may appear in a list of choices. \<^verbatim>\<open>isinstance(t, (int, float))\<close> holds
  for integers, floats and booleans.
\<close>

datatype pyval = PInt int | PFloat real | PStr string | PBool bool

fun is_num :: "pyval \<Rightarrow> bool" where
  "is_num (PInt i) = True"
| "is_num (PFloat r) = True"
| "is_num (PBool b) = True"
| "is_num (PStr s) = False"

fun num_key :: "pyval \<Rightarrow> real" where
  "num_key (PInt i) = of_int i"
| "num_key (PFloat r) = r"
| "num_key (PBool b) = (if b then 1 else 0)"
| "num_key (PStr s) = 0"

text \<open>Python's \<^verbatim>\<open>==\<close> and \<^verbatim>\<open><\<close> on these values: numbers compare by value.\<close>

definition py_eq :: "pyval \<Rightarrow> pyval \<Rightarrow> bool" where
  "py_eq x y =
     (if is_num x \<and> is_num y then num_key x = num_key y
      else if \<not> is_num x \<and> \<not> is_num y then x = y else False)"

definition py_less :: "pyval \<Rightarrow> pyval \<Rightarrow> bool" where
  "py_less x y = (is_num x \<and> is_num y \<and> num_key x < num_key y)"

text \<open>
  The objects of the ConfigSpace library that the function builds: hyperparameters with
  their domain (choices and default, or bounds and the \<^verbatim>\<open>log\<close> flag), and conditions
  (child, parent, value). A configuration space holds the hyperparameters and conditions
  added to it, in order. The library's own validation of its arguments is not modelled:
  the model returns a space whenever the code of \<^verbatim>\<open>create_search_space\<close> itself raises
  nothing, which covers every space the library returns.
\<close>

datatype hp_domain =
    Ordinal "pyval list" pyval
  | Categorical "pyval list" pyval
  | UniformFloat real real bool
  | UniformInteger int int bool

datatype condition =
    NotEqualsCondition string string pyval
  | LessThanCondition string string pyval

record configuration_space =
  hyperparameters :: "(string \<times> hp_domain) list"
  conditions :: "condition list"

definition empty_space :: configuration_space where
  "empty_space = \<lparr>hyperparameters = [], conditions = []\<rparr>"

definition add_hyperparameter ::
  "configuration_space \<Rightarrow> string \<times> hp_domain \<Rightarrow> configuration_space" where
  "add_hyperparameter cs h = cs\<lparr>hyperparameters := hyperparameters cs @ [h]\<rparr>"

definition add_condition :: "configuration_space \<Rightarrow> condition \<Rightarrow> configuration_space" where
  "add_condition cs c = cs\<lparr>conditions := conditions cs @ [c]\<rparr>"

record search_args =
  tile_px :: "pyval list option"
  tile_um :: "pyval list option"
  augment :: "string list option"
  normalizer :: "string list option"
  normalizer_source :: "string list option"
  model :: "string list option"
  batch_size :: "int list option"
  dropout :: "(real \<times> real) option"
  l1 :: "(real \<times> real) option"
  l2 :: "(real \<times> real) option"
  l1_dense :: "(real \<times> real) option"
  l2_dense :: "(real \<times> real) option"
  learning_rate :: "(real \<times> real) option"
  learning_rate_decay :: "(real \<times> real) option"
  learning_rate_decay_steps :: "(int \<times> int) option"
  hidden_layers :: "int list option"
  hidden_layer_width :: "int list option"
  pooling :: "string list option"
  trainable_layers :: "(int \<times> int) option"
  early_stop :: bool

text \<open>
  The recurring shapes of the \<^verbatim>\<open>if x is not None:\<close> blocks. \<^verbatim>\<open>xs[0]\<close> on an empty
  list raises \<^verbatim>\<open>IndexError\<close>.
\<close>

definition add_categorical ::
  "string \<Rightarrow> string list option \<Rightarrow> configuration_space \<Rightarrow> py_error + configuration_space" where
  "add_categorical n v cs =
     (case v of
        None \<Rightarrow> Inr cs
      | Some [] \<Rightarrow> Inl IndexError
      | Some (d # xs) \<Rightarrow>
          Inr (add_hyperparameter cs (n, Categorical (map PStr (d # xs)) (PStr d))))"

definition add_sorted_ints ::
  "string \<Rightarrow> int list option \<Rightarrow> configuration_space \<Rightarrow> py_error + configuration_space" where
  "add_sorted_ints n v cs =
     (case v of
        None \<Rightarrow> Inr cs
      | Some xs \<Rightarrow>
          (case sort xs of
             [] \<Rightarrow> Inl IndexError
           | d # ys \<Rightarrow> Inr (add_hyperparameter cs (n, Ordinal (map PInt (d # ys)) (PInt d)))))"

definition add_uniform_float ::
  "string \<Rightarrow> (real \<times> real) option \<Rightarrow> bool \<Rightarrow> configuration_space \<Rightarrow>
   py_error + configuration_space" where
  "add_uniform_float n v lg cs =
     (case v of
        None \<Rightarrow> Inr cs
      | Some (lo, hi) \<Rightarrow> Inr (add_hyperparameter cs (n, UniformFloat lo hi lg)))"

definition add_uniform_int ::
  "string \<Rightarrow> (int \<times> int) option \<Rightarrow> bool \<Rightarrow> configuration_space \<Rightarrow>
   py_error + configuration_space" where
  "add_uniform_int n v lg cs =
     (case v of
        None \<Rightarrow> Inr cs
      | Some (lo, hi) \<Rightarrow> Inr (add_hyperparameter cs (n, UniformInteger lo hi lg)))"

definition add_tile_px ::
  "pyval list option \<Rightarrow> configuration_space \<Rightarrow> py_error + configuration_space" where
  "add_tile_px v cs =
     (case v of
        None \<Rightarrow> Inr cs
      | Some xs \<Rightarrow>
          if list_all is_num xs then
            (case sort_key num_key xs of
               [] \<Rightarrow> Inl IndexError
             | d # ys \<Rightarrow> Inr (add_hyperparameter cs (''tile_px'', Ordinal (d # ys) d)))
          else Inl (ValueError ''Invalid values encountered in parameter tile_px''))"

definition add_tile_um ::
  "pyval list option \<Rightarrow> configuration_space \<Rightarrow> py_error + configuration_space" where
  "add_tile_um v cs =
     (case v of
        None \<Rightarrow> Inr cs
      | Some xs \<Rightarrow>
          if list_all is_num xs then
            (case sort_key num_key xs of
               [] \<Rightarrow> Inl IndexError
             | d # ys \<Rightarrow> Inr (add_hyperparameter cs (''tile_um'', Ordinal (d # ys) d)))
          else
            (case xs of
               [] \<Rightarrow> Inl IndexError
             | d # ys \<Rightarrow> Inr (add_hyperparameter cs (''tile_um'', Categorical (d # ys) d))))"

text \<open>
  The \<^verbatim>\<open>early_stop\<close> block constructs a categorical hyperparameter and drops it: the
  object is bound to nothing and \<^verbatim>\<open>cs.add_hyperparameter\<close> is not called.
\<close>

definition early_stop_block ::
  "bool \<Rightarrow> configuration_space \<Rightarrow> py_error + configuration_space" where
  "early_stop_block b cs =
     (if b then
        (let unused = (''early_stop'', Categorical [PBool True, PBool False] (PBool False))
         in Inr cs)
      else Inr cs)"

text \<open>The blocks in the order of the source.\<close>

definition hyperparameter_blocks ::
  "search_args \<Rightarrow> (configuration_space \<Rightarrow> py_error + configuration_space) list" where
  "hyperparameter_blocks a =
     [add_tile_px (tile_px a),
      add_tile_um (tile_um a),
      add_categorical ''augment'' (augment a),
      add_categorical ''normalizer'' (normalizer a),
      add_categorical ''normalizer_source'' (normalizer_source a),
      add_categorical ''model'' (model a),
      add_sorted_ints ''batch_size'' (batch_size a),
      add_uniform_float ''dropout'' (dropout a) False,
      add_uniform_float ''l1'' (l1 a) False,
      add_uniform_float ''l2'' (l2 a) False,
      add_uniform_float ''l1_dense'' (l1_dense a) False,
      add_uniform_float ''l2_dense'' (l2_dense a) False,
      add_uniform_float ''learning_rate'' (learning_rate a) True,
      add_uniform_float ''learning_rate_decay'' (learning_rate_decay a) False,
      add_uniform_int ''learning_rate_decay_steps'' (learning_rate_decay_steps a) True,
      add_sorted_ints ''hidden_layers'' (hidden_layers a),
      add_sorted_ints ''hidden_layer_width'' (hidden_layer_width a),
      add_categorical ''pooling'' (pooling a),
      add_uniform_int ''trainable_layers'' (trainable_layers a) False,
      early_stop_block (early_stop a)]"

fun run_blocks ::
  "(configuration_space \<Rightarrow> py_error + configuration_space) list \<Rightarrow> configuration_space \<Rightarrow>
   py_error + configuration_space" where
  "run_blocks [] cs = Inr cs"
| "run_blocks (b # bs) cs = bind_err (b cs) (run_blocks bs)"

definition add_conditions :: "search_args \<Rightarrow> configuration_space \<Rightarrow> configuration_space" where
  "add_conditions a cs0 =
     (let cs1 = (if hidden_layers a \<noteq> None \<and> hidden_layer_width a \<noteq> None
                 then add_condition cs0
                        (NotEqualsCondition ''hidden_layer_width'' ''hidden_layers'' (PInt 0))
                 else cs0);
          cs2 = (if learning_rate_decay a \<noteq> None \<and> learning_rate_decay_steps a \<noteq> None
                 then add_condition cs1
                        (LessThanCondition ''learning_rate_decay_steps'' ''learning_rate_decay''
                           (PInt 1))
                 else cs1);
          cs3 = (if hidden_layers a \<noteq> None \<and> l1_dense a \<noteq> None
                 then add_condition cs2 (NotEqualsCondition ''l1_dense'' ''hidden_layers'' (PInt 0))
                 else cs2);
          cs4 = (if hidden_layers a \<noteq> None \<and> l2_dense a \<noteq> None
                 then add_condition cs3 (NotEqualsCondition ''l2_dense'' ''hidden_layers'' (PInt 0))
                 else cs3)
      in cs4)"

definition create_search_space :: "search_args \<Rightarrow> py_error + configuration_space" where
  "create_search_space a =
     bind_err (run_blocks (hyperparameter_blocks a) empty_space)
       (\<lambda>cs. Inr (add_conditions a cs))"

text \<open>
  The presets: their keyword defaults, overridden by whatever keywords the caller gives
  (\<open>kwargs\<close>, a function on the argument record), forwarded to \<open>create_search_space\<close>.
\<close>

definition no_args :: search_args where
  "no_args =
     \<lparr>tile_px = None, tile_um = None, augment = None, normalizer = None,
      normalizer_source = None, model = None, batch_size = None, dropout = None,
      l1 = None, l2 = None, l1_dense = None, l2_dense = None, learning_rate = None,
      learning_rate_decay = None, learning_rate_decay_steps = None, hidden_layers = None,
      hidden_layer_width = None, pooling = None, trainable_layers = None,
      early_stop = False\<rparr>"

definition broad_defaults :: search_args where
  "broad_defaults =
     no_args\<lparr>batch_size := Some [8, 16, 32, 64], dropout := Some (0, 0.5),
       l1 := Some (0, 0.5), l2 := Some (0, 0.5), l1_dense := Some (0, 0.5),
       l2_dense := Some (0, 0.5), learning_rate := Some (0.00001, 0.001),
       learning_rate_decay := Some (0.95, 1), learning_rate_decay_steps := Some (128, 1024),
       hidden_layers := Some [0, 1, 2, 3], hidden_layer_width := Some [64, 128, 256, 512]\<rparr>"

definition shallow_defaults :: search_args where
  "shallow_defaults =
     no_args\<lparr>batch_size := Some [8, 16, 32, 64], dropout := Some (0, 0.3),
       l2 := Some (0, 0.3), l2_dense := Some (0, 0.3),
       learning_rate := Some (0.00005, 0.0005), hidden_layers := Some [0, 1, 2]\<rparr>"

definition broad_search_space ::
  "(search_args \<Rightarrow> search_args) \<Rightarrow> py_error + configuration_space" where
  "broad_search_space kwargs = create_search_space (kwargs broad_defaults)"

definition shallow_search_space ::
  "(search_args \<Rightarrow> search_args) \<Rightarrow> py_error + configuration_space" where
  "shallow_search_space kwargs = create_search_space (kwargs shallow_defaults)"

text \<open>
  Activity of a hyperparameter in a configuration (a map from names to values), as
  ConfigSpace defines it: the hyperparameter belongs to the space and every condition
  whose child it is holds for the value of the parent.
\<close>

fun cond_child :: "condition \<Rightarrow> string" where
  "cond_child (NotEqualsCondition c p v) = c"
| "cond_child (LessThanCondition c p v) = c"

fun cond_holds :: "condition \<Rightarrow> (string \<rightharpoonup> pyval) \<Rightarrow> bool" where
  "cond_holds (NotEqualsCondition c p v) cfg =
     (case cfg p of None \<Rightarrow> False | Some x \<Rightarrow> \<not> py_eq x v)"
| "cond_holds (LessThanCondition c p v) cfg =
     (case cfg p of None \<Rightarrow> False | Some x \<Rightarrow> py_less x v)"

definition names :: "configuration_space \<Rightarrow> string list" where
  "names cs = map fst (hyperparameters cs)"

definition is_active :: "configuration_space \<Rightarrow> (string \<rightharpoonup> pyval) \<Rightarrow> string \<Rightarrow> bool" where
  "is_active cs cfg n =
     (n \<in> set (names cs) \<and>
      list_all (\<lambda>c. cond_holds c cfg) (filter (\<lambda>c. cond_child c = n) (conditions cs)))"

subsection \<open>What the blocks add\<close>

text \<open>
  Each block, when it returns, appends at most its own name and leaves the conditions
  alone; \<open>supplied_names\<close> lists, block by block, the name added for the arguments given.
\<close>

definition block_adds ::
  "(configuration_space \<Rightarrow> py_error + configuration_space) \<Rightarrow> string list \<Rightarrow> bool" where
  "block_adds b ns =
     (\<forall>cs cs'. b cs = Inr cs' \<longrightarrow> names cs' = names cs @ ns \<and> conditions cs' = conditions cs)"

lemma opt_name_mem: "x \<in> set (if c then [] else [n]) \<longleftrightarrow> \<not> c \<and> x = n"
  by simp

lemma add_categorical_adds: "block_adds (add_categorical n v) (if v = None then [] else [n])"
  by (auto simp: block_adds_def add_categorical_def add_hyperparameter_def names_def
      split: option.splits list.splits)

lemma add_sorted_ints_adds: "block_adds (add_sorted_ints n v) (if v = None then [] else [n])"
  by (auto simp: block_adds_def add_sorted_ints_def add_hyperparameter_def names_def
      split: option.splits list.splits)

lemma add_uniform_float_adds:
  "block_adds (add_uniform_float n v lg) (if v = None then [] else [n])"
  by (auto simp: block_adds_def add_uniform_float_def add_hyperparameter_def names_def
      split: option.splits)

lemma add_uniform_int_adds:
  "block_adds (add_uniform_int n v lg) (if v = None then [] else [n])"
  by (auto simp: block_adds_def add_uniform_int_def add_hyperparameter_def names_def
      split: option.splits)

lemma add_tile_px_adds: "block_adds (add_tile_px v) (if v = None then [] else [''tile_px''])"
  by (auto simp: block_adds_def add_tile_px_def add_hyperparameter_def names_def
      split: option.splits list.splits if_splits)

lemma add_tile_um_adds: "block_adds (add_tile_um v) (if v = None then [] else [''tile_um''])"
  by (auto simp: block_adds_def add_tile_um_def add_hyperparameter_def names_def
      split: option.splits list.splits if_splits)

lemma early_stop_block_adds: "block_adds (early_stop_block b) []"
  by (auto simp: block_adds_def early_stop_block_def)

lemmas block_lemmas = add_categorical_adds add_sorted_ints_adds add_uniform_float_adds
  add_uniform_int_adds add_tile_px_adds add_tile_um_adds early_stop_block_adds

lemma run_blocks_adds:
  "list_all2 block_adds bs nss \<Longrightarrow> run_blocks bs cs = Inr cs' \<Longrightarrow>
   names cs' = names cs @ concat nss \<and> conditions cs' = conditions cs"
proof (induction bs nss arbitrary: cs rule: list_all2_induct)
  case Nil
  then show ?case by simp
next
  case (Cons b bs ns nss)
  from Cons.prems obtain cs1 where b: "b cs = Inr cs1" and r: "run_blocks bs cs1 = Inr cs'"
    by (auto simp: bind_err_def split: sum.splits)
  from Cons.hyps(1) b have "names cs1 = names cs @ ns \<and> conditions cs1 = conditions cs"
    by (simp add: block_adds_def)
  with Cons.IH[OF r] show ?case by simp
qed

definition supplied_names :: "search_args \<Rightarrow> string list list" where
  "supplied_names a =
     [if tile_px a = None then [] else [''tile_px''],
      if tile_um a = None then [] else [''tile_um''],
      if augment a = None then [] else [''augment''],
      if normalizer a = None then [] else [''normalizer''],
      if normalizer_source a = None then [] else [''normalizer_source''],
      if model a = None then [] else [''model''],
      if batch_size a = None then [] else [''batch_size''],
      if dropout a = None then [] else [''dropout''],
      if l1 a = None then [] else [''l1''],
      if l2 a = None then [] else [''l2''],
      if l1_dense a = None then [] else [''l1_dense''],
      if l2_dense a = None then [] else [''l2_dense''],
      if learning_rate a = None then [] else [''learning_rate''],
      if learning_rate_decay a = None then [] else [''learning_rate_decay''],
      if learning_rate_decay_steps a = None then [] else [''learning_rate_decay_steps''],
      if hidden_layers a = None then [] else [''hidden_layers''],
      if hidden_layer_width a = None then [] else [''hidden_layer_width''],
      if pooling a = None then [] else [''pooling''],
      if trainable_layers a = None then [] else [''trainable_layers''],
      []]"

lemma blocks_supplied: "list_all2 block_adds (hyperparameter_blocks a) (supplied_names a)"
  unfolding hyperparameter_blocks_def supplied_names_def
  by (simp add: block_lemmas)

lemma create_search_space_names:
  assumes "create_search_space a = Inr cs"
  shows "names cs = concat (supplied_names a)"
    and "conditions cs = conditions (add_conditions a empty_space)"
proof -
  from assms obtain cs0 where r: "run_blocks (hyperparameter_blocks a) empty_space = Inr cs0"
    and c: "cs = add_conditions a cs0"
    by (auto simp: create_search_space_def bind_err_def split: sum.splits)
  from run_blocks_adds[OF blocks_supplied r]
  have n: "names cs0 = concat (supplied_names a)" and k: "conditions cs0 = []"
    by (simp_all add: names_def empty_space_def)
  have "names (add_conditions a cs0) = names cs0"
    by (simp add: add_conditions_def add_condition_def names_def Let_def)
  with n c show "names cs = concat (supplied_names a)" by simp
  show "conditions cs = conditions (add_conditions a empty_space)"
    using k c by (simp add: add_conditions_def add_condition_def empty_space_def Let_def)
qed

lemma early_stop_not_supplied: "''early_stop'' \<notin> set (concat (supplied_names a))"
  unfolding supplied_names_def by (simp add: opt_name_mem)

lemma early_stop_block_const: "early_stop_block b = Inr"
  by (rule ext) (simp add: early_stop_block_def)

lemma create_search_space_early_stop:
  "create_search_space (a\<lparr>early_stop := b\<rparr>) = create_search_space a"
  by (simp add: create_search_space_def hyperparameter_blocks_def add_conditions_def
      early_stop_block_const)

text \<open>The example of the specification: three layer counts, two widths.\<close>

definition args_demo :: search_args where
  "args_demo = no_args\<lparr>hidden_layers := Some [0, 1, 2], hidden_layer_width := Some [64, 128],
     early_stop := True\<rparr>"

definition space_demo :: configuration_space where
  "space_demo =
     \<lparr>hyperparameters =
        [(''hidden_layers'', Ordinal [PInt 0, PInt 1, PInt 2] (PInt 0)),
         (''hidden_layer_width'', Ordinal [PInt 64, PInt 128] (PInt 64))],
      conditions = [NotEqualsCondition ''hidden_layer_width'' ''hidden_layers'' (PInt 0)]\<rparr>"

lemma create_demo: "create_search_space args_demo = Inr space_demo"
  by (simp add: create_search_space_def hyperparameter_blocks_def add_conditions_def
      args_demo_def no_args_def space_demo_def empty_space_def bind_err_def
      add_tile_px_def add_tile_um_def add_categorical_def add_sorted_ints_def
      add_uniform_float_def add_uniform_int_def early_stop_block_def
      add_hyperparameter_def add_condition_def)

text \<open>
  C10. No space returned by \<open>create_search_space\<close> has a parameter named
  \<open>early_stop\<close>; the flag has no effect on the result (the call with the flag set returns
  what the call with the flag cleared returns); and the same holds for the presets
  \<open>broad_search_space\<close> and \<open>shallow_search_space\<close> under any keyword arguments.
\<close>

theorem early_stop_never_added:
  "(create_search_space a = Inr cs \<longrightarrow> ''early_stop'' \<notin> set (names cs))
   \<and> create_search_space (a\<lparr>early_stop := True\<rparr>) = create_search_space (a\<lparr>early_stop := False\<rparr>)
   \<and> (broad_search_space kwargs = Inr cs \<longrightarrow> ''early_stop'' \<notin> set (names cs))
   \<and> (shallow_search_space kwargs = Inr cs \<longrightarrow> ''early_stop'' \<notin> set (names cs))"
proof -
  have n: "create_search_space x = Inr cs \<longrightarrow> ''early_stop'' \<notin> set (names cs)" for x
    using create_search_space_names(1)[of x cs] early_stop_not_supplied[of x] by auto
  have e: "create_search_space (a\<lparr>early_stop := True\<rparr>)
      = create_search_space (a\<lparr>early_stop := False\<rparr>)"
    by (simp add: create_search_space_early_stop)
  from n[of a] e n[of "kwargs broad_defaults"] n[of "kwargs shallow_defaults"]
  show ?thesis unfolding broad_search_space_def shallow_search_space_def by (intro conjI)
qed

theorem early_stop_never_added_witness:
  "create_search_space args_demo = Inr space_demo \<and> early_stop args_demo
   \<and> ''early_stop'' \<notin> set (names space_demo)"
proof -
  have "''early_stop'' \<notin> set (names space_demo)"
    using early_stop_never_added[of args_demo space_demo] create_demo by simp
  then show ?thesis using create_demo by (simp add: args_demo_def)
qed

text \<open>
  C8. In every space built with both \<open>hidden_layers\<close> and \<open>hidden_layer_width\<close> supplied,
  and in every configuration: \<open>hidden_layer_width\<close> is active exactly when the value of
  \<open>hidden_layers\<close> is not 0; \<open>l1_dense\<close> and \<open>l2_dense\<close> are active exactly when they
  were supplied and the value of \<open>hidden_layers\<close> is not 0; and, when
  \<open>learning_rate_decay\<close> is a parameter of the space, \<open>learning_rate_decay_steps\<close> is
  active exactly when it was supplied and the value of \<open>learning_rate_decay\<close> is below 1.
\<close>

theorem search_space_conditions:
  assumes "create_search_space a = Inr cs"
    and "hidden_layers a \<noteq> None" and "hidden_layer_width a \<noteq> None"
  shows "(is_active cs cfg ''hidden_layer_width'' \<longleftrightarrow>
            (case cfg ''hidden_layers'' of None \<Rightarrow> False | Some v \<Rightarrow> \<not> py_eq v (PInt 0)))
       \<and> (is_active cs cfg ''l1_dense'' \<longleftrightarrow> l1_dense a \<noteq> None \<and>
            (case cfg ''hidden_layers'' of None \<Rightarrow> False | Some v \<Rightarrow> \<not> py_eq v (PInt 0)))
       \<and> (is_active cs cfg ''l2_dense'' \<longleftrightarrow> l2_dense a \<noteq> None \<and>
            (case cfg ''hidden_layers'' of None \<Rightarrow> False | Some v \<Rightarrow> \<not> py_eq v (PInt 0)))
       \<and> (learning_rate_decay a \<noteq> None \<longrightarrow>
            (is_active cs cfg ''learning_rate_decay_steps'' \<longleftrightarrow>
               learning_rate_decay_steps a \<noteq> None \<and>
               (case cfg ''learning_rate_decay'' of None \<Rightarrow> False
                | Some v \<Rightarrow> py_less v (PInt 1))))"
proof -
  note n = create_search_space_names(1)[OF assms(1)]
  note c = create_search_space_names(2)[OF assms(1)]
  have c1: "is_active cs cfg ''hidden_layer_width'' \<longleftrightarrow>
      (case cfg ''hidden_layers'' of None \<Rightarrow> False | Some v \<Rightarrow> \<not> py_eq v (PInt 0))"
    using assms(2,3)
    by (simp add: is_active_def n c supplied_names_def opt_name_mem add_conditions_def
        add_condition_def empty_space_def Let_def)
  have c2: "is_active cs cfg ''l1_dense'' \<longleftrightarrow> l1_dense a \<noteq> None \<and>
      (case cfg ''hidden_layers'' of None \<Rightarrow> False | Some v \<Rightarrow> \<not> py_eq v (PInt 0))"
    using assms(2,3)
    by (simp add: is_active_def n c supplied_names_def opt_name_mem add_conditions_def
        add_condition_def empty_space_def Let_def)
  have c3: "is_active cs cfg ''l2_dense'' \<longleftrightarrow> l2_dense a \<noteq> None \<and>
      (case cfg ''hidden_layers'' of None \<Rightarrow> False | Some v \<Rightarrow> \<not> py_eq v (PInt 0))"
    using assms(2,3)
    by (simp add: is_active_def n c supplied_names_def opt_name_mem add_conditions_def
        add_condition_def empty_space_def Let_def)
  have c4: "learning_rate_decay a \<noteq> None \<longrightarrow>
      (is_active cs cfg ''learning_rate_decay_steps'' \<longleftrightarrow>
         learning_rate_decay_steps a \<noteq> None \<and>
         (case cfg ''learning_rate_decay'' of None \<Rightarrow> False | Some v \<Rightarrow> py_less v (PInt 1)))"
    using assms(2,3)
    by (simp add: is_active_def n c supplied_names_def opt_name_mem add_conditions_def
        add_condition_def empty_space_def Let_def)
  from c1 c2 c3 c4 show ?thesis by (intro conjI)
qed

theorem search_space_conditions_witness:
  "\<not> is_active space_demo [''hidden_layers'' \<mapsto> PInt 0] ''hidden_layer_width''
   \<and> is_active space_demo [''hidden_layers'' \<mapsto> PInt 2] ''hidden_layer_width''"
proof -
  have h: "hidden_layers args_demo \<noteq> None" "hidden_layer_width args_demo \<noteq> None"
    by (simp_all add: args_demo_def)
  from search_space_conditions[OF create_demo h, of "[''hidden_layers'' \<mapsto> PInt 0]"]
  have r1: "\<not> is_active space_demo [''hidden_layers'' \<mapsto> PInt 0] ''hidden_layer_width''"
    by (simp add: py_eq_def)
  from search_space_conditions[OF create_demo h, of "[''hidden_layers'' \<mapsto> PInt 2]"]
  have r2: "is_active space_demo [''hidden_layers'' \<mapsto> PInt 2] ''hidden_layer_width''"
    by (simp add: py_eq_def)
  from r1 r2 show ?thesis by (rule conjI)
qed

section \<open>Feature statistics: \<^verbatim>\<open>DatasetFeatures.stats\<close> (model/features.py)\<close>

text \<open>
  The activations of a slide are a two-dimensional array of shape (tiles, features): a
  list of rows together with the number of columns, which an array keeps also when it has
  no row. Activations are read as real numbers. The results of the F-test are floats that
  may be infinite or NaN, so they have a type of their own.
\<close>

record array2 =
  arr_rows :: "real list list"
  arr_ncols :: nat

datatype pyfloat = Fin real | PosInf | NegInf | NaN

definition isnan :: "pyfloat \<Rightarrow> bool" where
  "isnan x = (x = NaN)"

definition isfinite :: "pyfloat \<Rightarrow> bool" where
  "isfinite x = (case x of Fin r \<Rightarrow> True | _ \<Rightarrow> False)"

text \<open>\<^verbatim>\<open>d[k]\<close> on a dictionary kept as an association list.\<close>

definition dict_get :: "('k \<times> 'v) list \<Rightarrow> 'k \<Rightarrow> py_error + 'v" where
  "dict_get d k = (case map_of d k of None \<Rightarrow> Inl KeyError | Some v \<Rightarrow> Inr v)"

text \<open>\<^verbatim>\<open>A[:, idx]\<close>.\<close>

definition column :: "array2 \<Rightarrow> nat \<Rightarrow> py_error + real list" where
  "column A idx =
     (if idx < arr_ncols A then Inr (map (\<lambda>r. r ! idx) (arr_rows A)) else Inl IndexError)"

record dataset_features =
  slides :: "string list"
  activations :: "(string \<times> array2) list"
  labels :: "(string \<times> string) list"
  categories :: "string list"
  used_categories :: "string list"
  num_features :: nat

text \<open>
  The body of the loop over the slides: \<^verbatim>\<open>np.mean(A, axis=0)\<close> for the method
  \<open>mean\<close>; for \<open>threshold\<close>, \<^verbatim>\<open>np.sum(A > threshold, axis=0)\<close> divided by
  \<^verbatim>\<open>A.shape[-1]\<close>, the length of the last axis. (For an array without rows the mean
  is NaN in numpy and 0 here.)
\<close>

definition act_sum :: "real \<Rightarrow> array2 \<Rightarrow> real list" where
  "act_sum threshold A =
     map (\<lambda>j. real (length (filter (\<lambda>r. r ! j > threshold) (arr_rows A)))) [0..<arr_ncols A]"

definition summarized :: "string \<Rightarrow> real \<Rightarrow> array2 \<Rightarrow> real list" where
  "summarized method threshold A =
     (if method = ''mean'' then
        map (\<lambda>j. sum_list (map (\<lambda>r. r ! j) (arr_rows A)) / real (length (arr_rows A)))
          [0..<arr_ncols A]
      else
        map (\<lambda>s. s / real (arr_ncols A)) (act_sum threshold A))"

definition activation_stats ::
  "dataset_features \<Rightarrow> string \<Rightarrow> real \<Rightarrow> py_error + (string \<times> real list) list" where
  "activation_stats df method threshold =
     map_err (\<lambda>slide. bind_err (dict_get (activations df) slide)
                (\<lambda>A. Inr (slide, summarized method threshold A)))
       (slides df)"

text \<open>The slides of a category, \<^verbatim>\<open>[... for slide in self.slides if self.labels[slide] == c]\<close>.\<close>

definition slides_of_category :: "dataset_features \<Rightarrow> string \<Rightarrow> py_error + string list" where
  "slides_of_category df c =
     bind_err (map_err (\<lambda>slide. bind_err (dict_get (labels df) slide) (\<lambda>l. Inr (slide, l)))
                 (slides df))
       (\<lambda>sl. Inr (map fst (filter (\<lambda>(slide, l). l = c) sl)))"

definition category_stats ::
  "dataset_features \<Rightarrow> (string \<times> real list) list \<Rightarrow> py_error + real list list list" where
  "category_stats df astats =
     map_err (\<lambda>c. bind_err (slides_of_category df c) (map_err (dict_get astats)))
       (used_categories df)"

text \<open>
  \<^verbatim>\<open>activations_by_category(idx)\<close>, as the list of its values: per used category the
  concatenation of column \<open>idx\<close> over the slides of the category. \<^verbatim>\<open>np.concatenate\<close>
  of no array raises \<^verbatim>\<open>ValueError\<close>.
\<close>

definition activations_by_category ::
  "dataset_features \<Rightarrow> nat \<Rightarrow> py_error + real list list" where
  "activations_by_category df idx =
     (if categories df = [] then
        Inl (FeaturesError ''Unable to calculate by category; annotations not provided.'')
      else
        map_err (\<lambda>c. bind_err (slides_of_category df c) (\<lambda>pts.
                   bind_err (map_err (\<lambda>pt. bind_err (dict_get (activations df) pt)
                                               (\<lambda>A. column A idx)) pts)
                     (\<lambda>cols. if cols = [] then Inl (ValueError ''need at least one array'')
                              else Inr (concat cols))))
          (used_categories df))"

text \<open>\<^verbatim>\<open>c[:, f]\<close> for a category's stacked slide summaries.\<close>

definition stacked_column :: "real list list \<Rightarrow> nat \<Rightarrow> py_error + real list" where
  "stacked_column c f = (if c = [] then Inl IndexError else map_err (\<lambda>row. list_get row f) c)"

text \<open>What is stored for a feature from the pair returned by \<^verbatim>\<open>stats.f_oneway\<close>.\<close>

definition anova_entry :: "pyfloat \<times> pyfloat \<Rightarrow> pyfloat \<times> pyfloat" where
  "anova_entry r =
     (case r of (fvalue, pvalue) \<Rightarrow>
        if \<not> isnan fvalue \<and> \<not> isnan pvalue then (fvalue, pvalue) else (Fin (- 1), Fin 1))"

text \<open>
  The loop \<^verbatim>\<open>for f in range(self.num_features)\<close>, threading the two dictionaries.
  \<^verbatim>\<open>scipy.stats.f_oneway\<close> is a parameter.
\<close>

fun anova_loop ::
  "(real list list \<Rightarrow> py_error + (pyfloat \<times> pyfloat)) \<Rightarrow> dataset_features \<Rightarrow>
   real list list list \<Rightarrow> nat list \<Rightarrow>
   (nat \<rightharpoonup> pyfloat \<times> pyfloat) \<times> (nat \<rightharpoonup> pyfloat \<times> pyfloat) \<Rightarrow>
   py_error + ((nat \<rightharpoonup> pyfloat \<times> pyfloat) \<times> (nat \<rightharpoonup> pyfloat \<times> pyfloat))" where
  "anova_loop f_oneway df cstats [] (tile_stats, pt_stats) = Inr (tile_stats, pt_stats)"
| "anova_loop f_oneway df cstats (f # fs) (tile_stats, pt_stats) =
     bind_err (activations_by_category df f) (\<lambda>stats_vals.
     bind_err (f_oneway stats_vals) (\<lambda>r1.
     bind_err (map_err (\<lambda>c. stacked_column c f) cstats) (\<lambda>cols.
     bind_err (f_oneway cols) (\<lambda>r2.
       anova_loop f_oneway df cstats fs
         (tile_stats(f \<mapsto> anova_entry r1), pt_stats(f \<mapsto> anova_entry r2))))))"

definition stats ::
  "(real list list \<Rightarrow> py_error + (pyfloat \<times> pyfloat)) \<Rightarrow> dataset_features \<Rightarrow>
   string \<Rightarrow> real \<Rightarrow>
   py_error + ((nat \<rightharpoonup> pyfloat \<times> pyfloat) \<times> (nat \<rightharpoonup> pyfloat \<times> pyfloat) \<times>
               real list list list)" where
  "stats f_oneway df method threshold =
     (if categories df = [] then Inl (FeaturesError ''No annotations loaded'')
      else if method \<notin> set [''mean'', ''threshold''] then
        Inl (FeaturesError ''Stats method unknown'')
      else if labels df = [] then
        Inl (FeaturesError ''No annotations provided, unable to calculate feature stats.'')
      else
        bind_err (activation_stats df method threshold) (\<lambda>astats.
        bind_err (category_stats df astats) (\<lambda>cstats.
        bind_err (anova_loop f_oneway df cstats [0..<num_features df] (Map.empty, Map.empty))
          (\<lambda>(tile_stats, pt_stats). Inr (tile_stats, pt_stats, cstats)))))"

text \<open>
  The aggregation the documentation describes for the method \<open>threshold\<close>: per feature,
  the number of tiles whose activation exceeds the threshold, divided by the number of
  tiles of the slide.
\<close>

definition threshold_fraction_spec :: "real \<Rightarrow> array2 \<Rightarrow> real list" where
  "threshold_fraction_spec threshold A =
     map (\<lambda>j. real (length (filter (\<lambda>r. r ! j > threshold) (arr_rows A)))
               / real (length (arr_rows A)))
       [0..<arr_ncols A]"

text \<open>
  Sample datasets of one feature. In \<open>df_demo\<close> and \<open>df_same\<close> every category has one
  slide of two tiles; in \<open>df_pairs\<close> every category has two slides of two tiles. The
  activations are constant within a category; the two categories differ in \<open>df_demo\<close>
  and \<open>df_pairs\<close> and agree in \<open>df_same\<close>.
\<close>

definition df_demo :: dataset_features where
  "df_demo =
     \<lparr>slides = [''a'', ''b''],
      activations = [(''a'', \<lparr>arr_rows = [[1], [1]], arr_ncols = 1\<rparr>),
                     (''b'', \<lparr>arr_rows = [[2], [2]], arr_ncols = 1\<rparr>)],
      labels = [(''a'', ''x''), (''b'', ''y'')],
      categories = [''x'', ''y''],
      used_categories = [''x'', ''y''],
      num_features = 1\<rparr>"

definition df_same :: dataset_features where
  "df_same =
     \<lparr>slides = [''a'', ''b''],
      activations = [(''a'', \<lparr>arr_rows = [[1], [1]], arr_ncols = 1\<rparr>),
                     (''b'', \<lparr>arr_rows = [[1], [1]], arr_ncols = 1\<rparr>)],
      labels = [(''a'', ''x''), (''b'', ''y'')],
      categories = [''x'', ''y''],
      used_categories = [''x'', ''y''],
      num_features = 1\<rparr>"

definition df_pairs :: dataset_features where
  "df_pairs =
     \<lparr>slides = [''a'', ''b'', ''c'', ''d''],
      activations = [(''a'', \<lparr>arr_rows = [[1], [1]], arr_ncols = 1\<rparr>),
                     (''b'', \<lparr>arr_rows = [[1], [1]], arr_ncols = 1\<rparr>),
                     (''c'', \<lparr>arr_rows = [[2], [2]], arr_ncols = 1\<rparr>),
                     (''d'', \<lparr>arr_rows = [[2], [2]], arr_ncols = 1\<rparr>)],
      labels = [(''a'', ''x''), (''b'', ''x''), (''c'', ''y''), (''d'', ''y'')],
      categories = [''x'', ''y''],
      used_categories = [''x'', ''y''],
      num_features = 1\<rparr>"

text \<open>
  \<^verbatim>\<open>scipy.stats.f_oneway\<close> on the inputs met by these datasets. Fewer than two groups
  raise \<^verbatim>\<open>TypeError\<close>. A group without a value, or groups of one value each, are
  degenerate and give (nan, nan). Otherwise, when every group is constant, the result is
  (nan, nan) if all values are equal and (inf, 0) if two groups differ. Groups that are
  not constant need the F distribution and are outside this function.
\<close>

definition f_oneway_constant :: "real list list \<Rightarrow> py_error + (pyfloat \<times> pyfloat)" where
  "f_oneway_constant groups =
     (if length groups < 2 then Inl TypeError
      else if list_ex (\<lambda>g. g = []) groups \<or> list_all (\<lambda>g. length g = 1) groups then
        Inr (NaN, NaN)
      else if list_all (\<lambda>g. list_all (\<lambda>x. x = hd g) g) groups then
        (if list_all (\<lambda>x. x = hd (concat groups)) (concat groups) then Inr (NaN, NaN)
         else Inr (PosInf, Fin 0))
      else Inl (RuntimeError ''not a constant input''))"

subsection \<open>The stored F-test results\<close>

lemma anova_loop_inv:
  assumes "anova_loop fo df cs fs (ts, ps) = Inr (ts', ps')"
  shows "(\<forall>f. f \<in> set fs \<longrightarrow>
            (\<exists>gs r. activations_by_category df f = Inr gs \<and> fo gs = Inr r \<and>
                     ts' f = Some (anova_entry r)) \<and>
            (\<exists>cols r. map_err (\<lambda>c. stacked_column c f) cs = Inr cols \<and> fo cols = Inr r \<and>
                     ps' f = Some (anova_entry r)))
       \<and> (\<forall>f. f \<notin> set fs \<longrightarrow> ts' f = ts f \<and> ps' f = ps f)"
  using assms
proof (induction fs arbitrary: ts ps)
  case Nil
  then show ?case by simp
next
  case (Cons g fs)
  from Cons.prems obtain gs r1 cols r2 where
    a: "activations_by_category df g = Inr gs" and b: "fo gs = Inr r1"
    and c: "map_err (\<lambda>c. stacked_column c g) cs = Inr cols" and d: "fo cols = Inr r2"
    and l: "anova_loop fo df cs fs (ts(g \<mapsto> anova_entry r1), ps(g \<mapsto> anova_entry r2))
            = Inr (ts', ps')"
    by (auto simp: bind_err_def split: sum.splits)
  note ih = Cons.IH[OF l]
  show ?case
  proof (intro conjI allI impI)
    fix f assume f: "f \<in> set (g # fs)"
    show "\<exists>gs r. activations_by_category df f = Inr gs \<and> fo gs = Inr r \<and>
                     ts' f = Some (anova_entry r)"
    proof (cases "f \<in> set fs")
      case True
      with ih show ?thesis by blast
    next
      case False
      with f have "f = g" by simp
      moreover from ih False have "ts' f = (ts(g \<mapsto> anova_entry r1)) f" by blast
      ultimately have "activations_by_category df f = Inr gs \<and> fo gs = Inr r1 \<and>
          ts' f = Some (anova_entry r1)" using a b by simp
      then show ?thesis by (intro exI)
    qed
    show "\<exists>cols r. map_err (\<lambda>c. stacked_column c f) cs = Inr cols \<and> fo cols = Inr r \<and>
                     ps' f = Some (anova_entry r)"
    proof (cases "f \<in> set fs")
      case True
      with ih show ?thesis by blast
    next
      case False
      with f have "f = g" by simp
      moreover from ih False have "ps' f = (ps(g \<mapsto> anova_entry r2)) f" by blast
      ultimately have "map_err (\<lambda>c. stacked_column c f) cs = Inr cols \<and> fo cols = Inr r2 \<and>
          ps' f = Some (anova_entry r2)" using c d by simp
      then show ?thesis by (intro exI)
    qed
  next
    fix f assume f: "f \<notin> set (g # fs)"
    then have "f \<notin> set fs" "f \<noteq> g" by simp_all
    with ih show "ts' f = ts f" by simp
  next
    fix f assume f: "f \<notin> set (g # fs)"
    then have "f \<notin> set fs" "f \<noteq> g" by simp_all
    with ih show "ps' f = ps f" by simp
  qed
qed

lemma anova_entry_cases:
  "anova_entry r = (if isnan (fst r) \<or> isnan (snd r) then (Fin (- 1), Fin 1) else r)"
  by (cases r) (simp add: anova_entry_def)

lemma anova_entry_not_nan: "\<not> isnan (fst (anova_entry r)) \<and> \<not> isnan (snd (anova_entry r))"
  by (cases r) (simp add: anova_entry_def isnan_def)

lemma stats_loop:
  assumes "stats fo df method threshold = Inr (tile_stats, pt_stats, cstats)"
  shows "anova_loop fo df cstats [0..<num_features df] (Map.empty, Map.empty)
           = Inr (tile_stats, pt_stats)"
  using assms
  by (auto simp: stats_def bind_err_def split: if_splits sum.splits prod.splits)

lemma anova_loop_returns:
  assumes "\<forall>f \<in> set fs.
      activations_by_category df f = Inr (gs f) \<and> fo (gs f) = Inr (r1 f) \<and>
      map_err (\<lambda>c. stacked_column c f) cs = Inr (cols f) \<and> fo (cols f) = Inr (r2 f)"
  shows "\<exists>ts' ps'. anova_loop fo df cs fs (ts, ps) = Inr (ts', ps')"
  using assms
proof (induction fs arbitrary: ts ps)
  case Nil
  show ?case by simp
next
  case (Cons g fs)
  from Cons.prems have h:
    "activations_by_category df g = Inr (gs g)" "fo (gs g) = Inr (r1 g)"
    "map_err (\<lambda>c. stacked_column c g) cs = Inr (cols g)" "fo (cols g) = Inr (r2 g)"
    by simp_all
  from Cons.prems have r: "\<forall>f \<in> set fs.
      activations_by_category df f = Inr (gs f) \<and> fo (gs f) = Inr (r1 f) \<and>
      map_err (\<lambda>c. stacked_column c f) cs = Inr (cols f) \<and> fo (cols f) = Inr (r2 f)"
    by simp
  from Cons.IH[OF r, of "ts(g \<mapsto> anova_entry (r1 g))" "ps(g \<mapsto> anova_entry (r2 g))"]
  obtain ts' ps' where
    l: "anova_loop fo df cs fs (ts(g \<mapsto> anova_entry (r1 g)), ps(g \<mapsto> anova_entry (r2 g)))
        = Inr (ts', ps')"
    by (elim exE)
  have e: "anova_loop fo df cs (g # fs) (ts, ps) =
      anova_loop fo df cs fs (ts(g \<mapsto> anova_entry (r1 g)), ps(g \<mapsto> anova_entry (r2 g)))"
    by (simp add: h bind_err_def)
  from l show ?case unfolding e by (intro exI)
qed

lemma stats_returned_entries:
  assumes "stats fo df method threshold = Inr (tile_stats, pt_stats, cstats)"
    and "f < num_features df"
  shows "(\<exists>gs r. activations_by_category df f = Inr gs \<and> fo gs = Inr r \<and>
            tile_stats f = Some (anova_entry r))
       \<and> (\<exists>cols r. map_err (\<lambda>c. stacked_column c f) cstats = Inr cols \<and> fo cols = Inr r \<and>
            pt_stats f = Some (anova_entry r))"
proof -
  from assms(2) have m: "f \<in> set [0..<num_features df]" by simp
  from anova_loop_inv[OF stats_loop[OF assms(1)]] m show ?thesis by blast
qed

lemma stats_unfold:
  assumes "categories df \<noteq> []" and "method = ''mean'' \<or> method = ''threshold''"
    and "labels df \<noteq> []"
    and "activation_stats df method threshold = Inr astats"
    and "category_stats df astats = Inr cstats"
    and "anova_loop fo df cstats [0..<num_features df] (Map.empty, Map.empty) = Inr (ts, ps)"
  shows "stats fo df method threshold = Inr (ts, ps, cstats)"
  using assms by (auto simp: stats_def bind_err_def)

text \<open>
  C7, amended. Let the checks at the head of \<open>stats\<close> pass and the per-slide and
  per-category summaries be computed, and let, for every feature below \<open>num_features\<close>,
  the tile-level groups and the slide-level groups be formed and \<open>f_oneway\<close> return a
  pair for each of them (\<open>r1 f\<close> and \<open>r2 f\<close>), whatever that pair is. Then \<open>stats\<close>
  returns; it raises nothing on a NaN. For every such feature the tile-level and the
  slide-level entry is the sentinel pair F = -1, P = 1 if F or P of the result is NaN, and
  the result itself otherwise (an infinite F included). No stored entry has a NaN
  component.
\<close>

theorem stats_nan_sentinel:
  assumes "categories df \<noteq> []" and "method = ''mean'' \<or> method = ''threshold''"
    and "labels df \<noteq> []"
    and "activation_stats df method threshold = Inr astats"
    and "category_stats df astats = Inr cstats"
    and "\<forall>f < num_features df.
      activations_by_category df f = Inr (gs f) \<and> fo (gs f) = Inr (r1 f) \<and>
      map_err (\<lambda>c. stacked_column c f) cstats = Inr (cols f) \<and> fo (cols f) = Inr (r2 f)"
  shows "\<exists>tile_stats pt_stats.
      stats fo df method threshold = Inr (tile_stats, pt_stats, cstats)
    \<and> (\<forall>f < num_features df.
          tile_stats f = Some (if isnan (fst (r1 f)) \<or> isnan (snd (r1 f))
                               then (Fin (- 1), Fin 1) else r1 f)
        \<and> pt_stats f = Some (if isnan (fst (r2 f)) \<or> isnan (snd (r2 f))
                             then (Fin (- 1), Fin 1) else r2 f))
    \<and> (\<forall>f e. tile_stats f = Some e \<or> pt_stats f = Some e \<longrightarrow>
          \<not> isnan (fst e) \<and> \<not> isnan (snd e))"
proof -
  from assms(6) have all: "\<forall>f \<in> set [0..<num_features df].
      activations_by_category df f = Inr (gs f) \<and> fo (gs f) = Inr (r1 f) \<and>
      map_err (\<lambda>c. stacked_column c f) cstats = Inr (cols f) \<and> fo (cols f) = Inr (r2 f)"
    by simp
  from anova_loop_returns[OF all, of Map.empty Map.empty] obtain ts ps where
    l: "anova_loop fo df cstats [0..<num_features df] (Map.empty, Map.empty) = Inr (ts, ps)"
    by (elim exE)
  note inv = anova_loop_inv[OF l]
  have s: "stats fo df method threshold = Inr (ts, ps, cstats)"
    using assms(1) assms(2) assms(3) assms(4) assms(5) l by (rule stats_unfold)
  have e: "\<forall>f < num_features df.
          ts f = Some (if isnan (fst (r1 f)) \<or> isnan (snd (r1 f))
                       then (Fin (- 1), Fin 1) else r1 f)
        \<and> ps f = Some (if isnan (fst (r2 f)) \<or> isnan (snd (r2 f))
                       then (Fin (- 1), Fin 1) else r2 f)"
  proof (intro allI impI)
    fix f assume f: "f < num_features df"
    then have m: "f \<in> set [0..<num_features df]" by simp
    from assms(6) f have h:
      "activations_by_category df f = Inr (gs f)" "fo (gs f) = Inr (r1 f)"
      "map_err (\<lambda>c. stacked_column c f) cstats = Inr (cols f)" "fo (cols f) = Inr (r2 f)"
      by simp_all
    from inv m have "\<exists>g r. activations_by_category df f = Inr g \<and> fo g = Inr r \<and>
        ts f = Some (anova_entry r)" by blast
    then have t: "ts f = Some (anova_entry (r1 f))" using h(1) h(2) by auto
    from inv m have "\<exists>c r. map_err (\<lambda>c. stacked_column c f) cstats = Inr c \<and> fo c = Inr r \<and>
        ps f = Some (anova_entry r)" by blast
    then have p: "ps f = Some (anova_entry (r2 f))" using h(3) h(4) by auto
    show "ts f = Some (if isnan (fst (r1 f)) \<or> isnan (snd (r1 f))
                       then (Fin (- 1), Fin 1) else r1 f)
        \<and> ps f = Some (if isnan (fst (r2 f)) \<or> isnan (snd (r2 f))
                       then (Fin (- 1), Fin 1) else r2 f)"
      unfolding t p anova_entry_cases by simp
  qed
  have n: "\<forall>f e. ts f = Some e \<or> ps f = Some e \<longrightarrow> \<not> isnan (fst e) \<and> \<not> isnan (snd e)"
  proof (intro allI impI)
    fix f e assume a: "ts f = Some e \<or> ps f = Some e"
    show "\<not> isnan (fst e) \<and> \<not> isnan (snd e)"
    proof (cases "f \<in> set [0..<num_features df]")
      case True
      with inv obtain r r' where "ts f = Some (anova_entry r)" "ps f = Some (anova_entry r')"
        by blast
      with a have "e = anova_entry r \<or> e = anova_entry r'" by auto
      then show ?thesis using anova_entry_not_nan[of r] anova_entry_not_nan[of r'] by auto
    next
      case False
      with inv have "ts f = None" "ps f = None" by simp_all
      with a show ?thesis by simp
    qed
  qed
  from s e n show ?thesis by (intro exI conjI)
qed

lemma stats_same:
  "stats f_oneway_constant df_same ''mean'' t =
     Inr ([0 \<mapsto> (Fin (- 1), Fin 1)], [0 \<mapsto> (Fin (- 1), Fin 1)], [[[1]], [[1]]])"
proof -
  have n: "[0..<num_features df_same] = [0]" by (simp add: df_same_def)
  have a: "activations_by_category df_same 0 = Inr [[1, 1], [1, 1]]"
    by (simp add: activations_by_category_def df_same_def slides_of_category_def
        bind_err_def dict_get_def column_def)
  have b: "activation_stats df_same ''mean'' t = Inr [(''a'', [1]), (''b'', [1])]"
    by (simp add: activation_stats_def df_same_def bind_err_def dict_get_def summarized_def)
  have c: "category_stats df_same [(''a'', [1]), (''b'', [1])] = Inr [[[1]], [[1]]]"
    by (simp add: category_stats_def df_same_def slides_of_category_def
        bind_err_def dict_get_def)
  have d: "categories df_same \<noteq> []" "labels df_same \<noteq> []" by (simp_all add: df_same_def)
  show ?thesis
    unfolding stats_def using d
    by (simp add: a b c n f_oneway_constant_def stacked_column_def
        list_get_def anova_entry_def isnan_def bind_err_def)
qed

theorem stats_nan_sentinel_witness:
  "f_oneway_constant [[1, 1], [1, 1]] = Inr (NaN, NaN)
   \<and> f_oneway_constant [[1], [1]] = Inr (NaN, NaN)
   \<and> (\<exists>tile_stats pt_stats.
        stats f_oneway_constant df_same ''mean'' 0.5 =
          Inr (tile_stats, pt_stats, [[[1]], [[1]]])
      \<and> tile_stats 0 = Some (Fin (- 1), Fin 1) \<and> pt_stats 0 = Some (Fin (- 1), Fin 1))
   \<and> stats f_oneway_constant df_same ''mean'' 0.5 =
       Inr ([0 \<mapsto> (Fin (- 1), Fin 1)], [0 \<mapsto> (Fin (- 1), Fin 1)], [[[1]], [[1]]])"
proof -
  have c: "categories df_same \<noteq> []" and l: "labels df_same \<noteq> []"
    by (simp_all add: df_same_def)
  have m: "''mean'' = ''mean'' \<or> ''mean'' = ''threshold''" by simp
  have a: "activation_stats df_same ''mean'' 0.5 = Inr [(''a'', [1]), (''b'', [1])]"
    by (simp add: activation_stats_def df_same_def bind_err_def dict_get_def summarized_def)
  have k: "category_stats df_same [(''a'', [1]), (''b'', [1])] = Inr [[[1]], [[1]]]"
    by (simp add: category_stats_def df_same_def slides_of_category_def
        bind_err_def dict_get_def)
  have f1: "f_oneway_constant [[1, 1], [1, 1]] = Inr (NaN, NaN)"
    by (simp add: f_oneway_constant_def)
  have f2: "f_oneway_constant [[1], [1]] = Inr (NaN, NaN)"
    by (simp add: f_oneway_constant_def)
  have g: "activations_by_category df_same 0 = Inr [[1, 1], [1, 1]]"
    by (simp add: activations_by_category_def df_same_def slides_of_category_def
        bind_err_def dict_get_def column_def)
  have s: "map_err (\<lambda>c. stacked_column c 0) [[[1]], [[1::real]]] = Inr [[1], [1]]"
    by (simp add: stacked_column_def list_get_def bind_err_def)
  have n: "num_features df_same = 1" by (simp add: df_same_def)
  have h: "\<forall>f < num_features df_same.
      activations_by_category df_same f = Inr ((\<lambda>_. [[1, 1], [1, 1]]) f) \<and>
      f_oneway_constant ((\<lambda>_. [[1, 1], [1, 1]]) f) = Inr ((\<lambda>_. (NaN, NaN)) f) \<and>
      map_err (\<lambda>c. stacked_column c f) [[[1]], [[1]]] = Inr ((\<lambda>_. [[1], [1]]) f) \<and>
      f_oneway_constant ((\<lambda>_. [[1], [1]]) f) = Inr ((\<lambda>_. (NaN, NaN)) f)"
    using f1 f2 g s by (simp add: n)
  from stats_nan_sentinel[OF c m l a k h] obtain ts ps where
    r: "stats f_oneway_constant df_same ''mean'' 0.5 = Inr (ts, ps, [[[1]], [[1]]])"
    and e: "\<forall>f < num_features df_same.
          ts f = Some (if isnan (fst (NaN, NaN)) \<or> isnan (snd (NaN, NaN))
                       then (Fin (- 1), Fin 1) else (NaN, NaN))
        \<and> ps f = Some (if isnan (fst (NaN, NaN)) \<or> isnan (snd (NaN, NaN))
                       then (Fin (- 1), Fin 1) else (NaN, NaN))"
    by (elim exE conjE)
  from e have t0: "ts 0 = Some (Fin (- 1), Fin 1)" and p0: "ps 0 = Some (Fin (- 1), Fin 1)"
    by (simp_all add: n isnan_def)
  from r t0 p0
  have w: "\<exists>tile_stats pt_stats.
        stats f_oneway_constant df_same ''mean'' 0.5 =
          Inr (tile_stats, pt_stats, [[[1]], [[1]]])
      \<and> tile_stats 0 = Some (Fin (- 1), Fin 1) \<and> pt_stats 0 = Some (Fin (- 1), Fin 1)"
    by (intro exI conjI)
  from f1 f2 w stats_same[of "0.5"] show ?thesis by (intro conjI)
qed

lemma abc_pairs: "activations_by_category df_pairs 0 = Inr [[1, 1, 1, 1], [2, 2, 2, 2]]"
  by (simp add: activations_by_category_def df_pairs_def slides_of_category_def
      bind_err_def dict_get_def column_def)

lemma astats_pairs:
  "activation_stats df_pairs ''mean'' t =
     Inr [(''a'', [1]), (''b'', [1]), (''c'', [2]), (''d'', [2])]"
  by (simp add: activation_stats_def df_pairs_def bind_err_def dict_get_def summarized_def)

lemma cstats_pairs:
  "category_stats df_pairs [(''a'', [1]), (''b'', [1]), (''c'', [2]), (''d'', [2])]
     = Inr [[[1], [1]], [[2], [2]]]"
  by (simp add: category_stats_def df_pairs_def slides_of_category_def
      bind_err_def dict_get_def)

lemma fo_tiles: "f_oneway_constant [[1, 1, 1, 1], [2, 2, 2, 2]] = Inr (PosInf, Fin 0)"
  by (simp add: f_oneway_constant_def)

lemma fo_slides: "f_oneway_constant [[1, 1], [2, 2]] = Inr (PosInf, Fin 0)"
  by (simp add: f_oneway_constant_def)

lemma stats_pairs:
  "stats f_oneway_constant df_pairs ''mean'' 0.5 =
     Inr ([0 \<mapsto> (PosInf, Fin 0)], [0 \<mapsto> (PosInf, Fin 0)], [[[1], [1]], [[2], [2]]])"
proof -
  have n: "[0..<num_features df_pairs] = [0]" by (simp add: df_pairs_def)
  have c: "categories df_pairs \<noteq> []" "labels df_pairs \<noteq> []"
    by (simp_all add: df_pairs_def)
  show ?thesis
    unfolding stats_def using c
    by (simp add: astats_pairs cstats_pairs n abc_pairs fo_tiles fo_slides
        stacked_column_def list_get_def anova_entry_def isnan_def bind_err_def)
qed

text \<open>
  C7, as stated, fails. In \<open>df_pairs\<close> every category has two slides and is constant, and
  the two categories differ, at the level of the tiles (groups of four values) and at
  the level of the slides (groups of two values). \<open>f_oneway\<close> gives F = inf, P = 0 for
  both, a non-finite result that is stored as it is, not as the sentinel.
\<close>

theorem stats_infinite_counterexample:
  "stats f_oneway_constant df_pairs ''mean'' 0.5 =
     Inr ([0 \<mapsto> (PosInf, Fin 0)], [0 \<mapsto> (PosInf, Fin 0)], [[[1], [1]], [[2], [2]]])
   \<and> activations_by_category df_pairs 0 = Inr [[1, 1, 1, 1], [2, 2, 2, 2]]
   \<and> f_oneway_constant [[1, 1, 1, 1], [2, 2, 2, 2]] = Inr (PosInf, Fin 0)
   \<and> map_err (\<lambda>c. stacked_column c 0) [[[1], [1]], [[2], [2::real]]] = Inr [[1, 1], [2, 2]]
   \<and> f_oneway_constant [[1, 1], [2, 2]] = Inr (PosInf, Fin 0)
   \<and> \<not> isfinite PosInf \<and> (PosInf, Fin 0) \<noteq> (Fin (- 1), Fin 1)"
proof -
  have s: "map_err (\<lambda>c. stacked_column c 0) [[[1], [1]], [[2], [2::real]]]
      = Inr [[1, 1], [2, 2]]"
    by (simp add: stacked_column_def list_get_def bind_err_def)
  have i: "\<not> isfinite PosInf" and j: "(PosInf, Fin 0) \<noteq> (Fin (- 1), Fin 1)"
    by (simp_all add: isfinite_def)
  from stats_pairs abc_pairs fo_tiles s fo_slides i j show ?thesis by (intro conjI)
qed

text \<open>
  C3. For a slide of two tiles and one feature, both activations above the threshold, the
  code yields 2 (two tiles counted, divided by the one feature of the last axis), where
  the number of tiles exceeding the threshold divided by the number of tiles is 1.
\<close>

theorem threshold_divides_by_features:
  "summarized ''threshold'' 0.5 \<lparr>arr_rows = [[1], [1]], arr_ncols = 1\<rparr> = [2]
   \<and> threshold_fraction_spec 0.5 \<lparr>arr_rows = [[1], [1]], arr_ncols = 1\<rparr> = [1]
   \<and> activation_stats df_demo ''threshold'' 0.5 = Inr [(''a'', [2]), (''b'', [2])]"
  by (simp add: summarized_def act_sum_def threshold_fraction_spec_def activation_stats_def
      df_demo_def bind_err_def dict_get_def)

section \<open>MIL bags: \<^verbatim>\<open>_to_fixed_size_bag\<close> and \<^verbatim>\<open>MultiBagDataset\<close> (mil/data.py)\<close>

text \<open>
  A tensor is its shape and its elements in row-major order; a well-formed tensor has as
  many elements as the product of its shape. Elements are read as real numbers.
\<close>

record tensor =
  shape :: "nat list"
  elems :: "real list"

definition wf_tensor :: "tensor \<Rightarrow> bool" where
  "wf_tensor t = (length (elems t) = prod_list (shape t))"

definition dim :: "tensor \<Rightarrow> nat" where
  "dim t = length (shape t)"

text \<open>The number of elements of one entry along the first axis, and the i-th entry.\<close>

definition stride :: "tensor \<Rightarrow> nat" where
  "stride t = prod_list (tl (shape t))"

definition tensor_row :: "tensor \<Rightarrow> nat \<Rightarrow> real list" where
  "tensor_row t i = take (stride t) (drop (i * stride t) (elems t))"

text \<open>\<^verbatim>\<open>t[idxs]\<close> for a list of indices into the first axis.\<close>

definition index_rows :: "tensor \<Rightarrow> nat list \<Rightarrow> py_error + tensor" where
  "index_rows t idxs =
     (case shape t of
        [] \<Rightarrow> Inl IndexError
      | n # rest \<Rightarrow>
          if list_all (\<lambda>i. i < n) idxs then
            Inr \<lparr>shape = length idxs # rest, elems = concat (map (tensor_row t) idxs)\<rparr>
          else Inl IndexError)"

text \<open>\<^verbatim>\<open>torch.zeros(a, b)\<close>; a negative size raises \<^verbatim>\<open>RuntimeError\<close>.\<close>

definition zeros :: "int \<Rightarrow> nat \<Rightarrow> py_error + tensor" where
  "zeros a b =
     (if a < 0 then Inl (RuntimeError ''negative dimension'')
      else Inr \<lparr>shape = [nat a, b], elems = replicate (nat a * b) 0\<rparr>)"

text \<open>
  \<^verbatim>\<open>torch.cat((a, b))\<close> along the first axis. A one-dimensional empty tensor is
  skipped; otherwise both tensors must have the same number of dimensions, at least one,
  and the same shape after the first axis.
\<close>

definition cat :: "tensor \<Rightarrow> tensor \<Rightarrow> py_error + tensor" where
  "cat a b =
     (if shape b = [0] then Inr a
      else if shape a = [0] then Inr b
      else if dim a \<noteq> dim b then
        Inl (RuntimeError ''Tensors must have same number of dimensions'')
      else if dim a = 0 then
        Inl (RuntimeError ''zero-dimensional tensor cannot be concatenated'')
      else if tl (shape a) \<noteq> tl (shape b) then
        Inl (RuntimeError ''Sizes of tensors must match except in dimension 0'')
      else Inr \<lparr>shape = (hd (shape a) + hd (shape b)) # tl (shape a),
                elems = elems a @ elems b\<rparr>)"

text \<open>
  \<^verbatim>\<open>t.mean(dim=[2, 3])\<close>: both axes must exist. (Over an empty axis the mean is NaN in
  torch and 0 here.)
\<close>

definition mean_dims_2_3 :: "tensor \<Rightarrow> py_error + tensor" where
  "mean_dims_2_3 t =
     (case shape t of
        n # f # h # w # rest \<Rightarrow>
          let R = prod_list rest; B = h * w * R in
          Inr \<lparr>shape = n # f # rest,
               elems = concat (map (\<lambda>ob. map (\<lambda>r. sum_list (map (\<lambda>j. elems t ! (ob * B + j * R + r))
                                                            [0..<h * w]) / real (h * w))
                                          [0..<R])
                                [0..<n * f])\<rparr>
      | _ \<Rightarrow> Inl IndexError)"

text \<open>\<^verbatim>\<open>xs[:k]\<close> for an integer k.\<close>

definition slice_to :: "'a list \<Rightarrow> int \<Rightarrow> 'a list" where
  "slice_to xs k = (if 0 \<le> k then take (nat k) xs else take (nat (int (length xs) + k)) xs)"

text \<open>
  \<^verbatim>\<open>_to_fixed_size_bag\<close>. The random permutation \<^verbatim>\<open>torch.randperm(n)\<close> is a parameter
  \<open>randperm\<close>. The reduction \<open>bag_flattened\<close> is computed and not used afterwards: the
  rows are taken from \<open>bag\<close>.
\<close>

definition to_fixed_size_bag ::
  "(nat \<Rightarrow> nat list) \<Rightarrow> tensor \<Rightarrow> int \<Rightarrow> py_error + (tensor \<times> int)" where
  "to_fixed_size_bag randperm bag bag_size =
     bind_err (if dim bag > 2 then mean_dims_2_3 bag else Inr bag) (\<lambda>bag_flattened.
     bind_err (list_get (shape bag) 0) (\<lambda>n.
       let bag_idxs = slice_to (randperm n) bag_size in
       bind_err (index_rows bag bag_idxs) (\<lambda>bag_samples.
       bind_err (list_get (shape bag_samples) 0) (\<lambda>k.
       bind_err (list_get (shape bag_samples) 1) (\<lambda>f.
       bind_err (zeros (bag_size - int k) f) (\<lambda>z.
       bind_err (cat bag_samples z) (\<lambda>zero_padded.
         Inr (zero_padded, min bag_size (int n)))))))))"

text \<open>
  \<^verbatim>\<open>MultiBagDataset\<close>. The entry of a slide, \<^verbatim>\<open>self.bags[index]\<close>, is a Python list
  of items, a numpy array (iterated into its sub-arrays) or a torch tensor (iterated into
  its sub-tensors). An item of a list is a path string, a numpy array, a tensor, or
  anything else. \<^verbatim>\<open>torch.load\<close> is a parameter.
\<close>

datatype bag_item = PathStr string | NdArray tensor | Tensor tensor | OtherItem string

datatype slide_bags =
    BagList "bag_item list"
  | BagArray "tensor list"
  | BagTensor "tensor list"

record multi_bag_dataset =
  bags :: "slide_bags list"
  n_bags :: nat
  bag_size :: "int option"

definition quoted :: "string \<Rightarrow> string" where
  "quoted s = [CHR 0x27] @ s @ [CHR 0x27]"

fun type_name :: "bag_item \<Rightarrow> string" where
  "type_name (PathStr p) = ''str''"
| "type_name (NdArray t) = ''numpy.ndarray''"
| "type_name (Tensor t) = ''torch.Tensor''"
| "type_name (OtherItem n) = n"

definition invalid_bag_type :: "bag_item \<Rightarrow> py_error" where
  "invalid_bag_type bag = ValueError (''Invalid bag type: <class '' @ quoted (type_name bag) @ ''>'')"

text \<open>
  The loop \<^verbatim>\<open>for bag in bags\<close>. The first test looks at the item, the second and
  third at \<^verbatim>\<open>self.bags[index]\<close>, the entry the items come from.
\<close>

fun load_bags :: "(string \<Rightarrow> py_error + tensor) \<Rightarrow> slide_bags \<Rightarrow> py_error + tensor list" where
  "load_bags torch_load (BagList items) =
     map_err (\<lambda>bag. case bag of
                       PathStr p \<Rightarrow> torch_load p
                     | _ \<Rightarrow> Inl (invalid_bag_type bag)) items"
| "load_bags torch_load (BagArray arrs) = Inr arrs"
| "load_bags torch_load (BagTensor ts) = Inr ts"

definition slide_len :: "slide_bags \<Rightarrow> nat" where
  "slide_len b = (case b of BagList xs \<Rightarrow> length xs | BagArray xs \<Rightarrow> length xs
                  | BagTensor xs \<Rightarrow> length xs)"

text \<open>\<^verbatim>\<open>xs[i]\<close> for an integer i: a negative i counts from the end.\<close>

definition py_index :: "'a list \<Rightarrow> int \<Rightarrow> py_error + 'a" where
  "py_index xs i =
     (if 0 \<le> i \<and> i < int (length xs) then Inr (xs ! nat i)
      else if i < 0 \<and> - int (length xs) \<le> i then Inr (xs ! nat (int (length xs) + i))
      else Inl IndexError)"

text \<open>\<^verbatim>\<open>len(t)\<close>; a tensor without axes has no length.\<close>

definition tensor_len :: "tensor \<Rightarrow> py_error + nat" where
  "tensor_len t = (case shape t of [] \<Rightarrow> Inl TypeError | n # rest \<Rightarrow> Inr n)"

definition getitem ::
  "(string \<Rightarrow> py_error + tensor) \<Rightarrow> (nat \<Rightarrow> nat list) \<Rightarrow> multi_bag_dataset \<Rightarrow> int \<Rightarrow>
   py_error + (tensor \<times> int) list" where
  "getitem torch_load randperm ds index =
     bind_err (py_index (bags ds) index) (\<lambda>bs.
       if slide_len bs \<noteq> n_bags ds then Inl AssertionError
       else
         bind_err (load_bags torch_load bs) (\<lambda>loaded_bags.
           let full = map_err (\<lambda>bag. bind_err (tensor_len bag) (\<lambda>n. Inr (bag, int n)))
                        loaded_bags
           in (case bag_size ds of
                 None \<Rightarrow> full
               | Some s \<Rightarrow>
                   if s \<noteq> 0 then
                     map_err (\<lambda>bag. to_fixed_size_bag randperm bag s) loaded_bags
                   else full)))"

subsection \<open>Rows of a padded bag\<close>

lemma concat_row_nth:
  "\<forall>xs \<in> set xss. length xs = F \<Longrightarrow> i < length xss \<Longrightarrow>
   take F (drop (i * F) (concat xss @ ys)) = xss ! i"
proof (induction xss arbitrary: i)
  case Nil
  then show ?case by simp
next
  case (Cons xs xss)
  show ?case
  proof (cases i)
    case 0
    with Cons.prems show ?thesis by simp
  next
    case (Suc j)
    with Cons.prems have "take F (drop (j * F) (concat xss @ ys)) = xss ! j"
      using Cons.IH[of j] by simp
    moreover have "length xs = F" using Cons.prems by simp
    ultimately show ?thesis using Suc by (simp add: drop_append)
  qed
qed

lemma length_concat_rows:
  "\<forall>xs \<in> set xss. length xs = F \<Longrightarrow> length (concat xss) = length xss * F"
  by (induction xss) auto

lemma zero_row_nth:
  assumes "length A = k * F" "k \<le> i" "i < S"
  shows "take F (drop (i * F) (A @ replicate ((S - k) * F) (0::real))) = replicate F 0"
proof -
  have "S - k = (i - k) + (S - i)" using assms(2,3) by simp
  then have "(S - k) * F = (i - k) * F + (S - i) * F" by (simp add: add_mult_distrib)
  then have z: "replicate ((S - k) * F) (0::real)
      = replicate ((i - k) * F) 0 @ replicate ((S - i) * F) 0"
    by (simp add: replicate_add)
  have "i = k + (i - k)" using assms(2) by simp
  then have "i * F = k * F + (i - k) * F" by (metis add_mult_distrib)
  then have l: "length (A @ replicate ((i - k) * F) (0::real)) = i * F"
    using assms(1) by simp
  have "drop (i * F) (A @ replicate ((S - k) * F) (0::real))
      = drop (i * F) ((A @ replicate ((i - k) * F) 0) @ replicate ((S - i) * F) 0)"
    by (simp add: z)
  also have "\<dots> = replicate ((S - i) * F) 0"
    using l by (simp only: drop_append) simp
  finally have d: "drop (i * F) (A @ replicate ((S - k) * F) (0::real))
      = replicate ((S - i) * F) 0" .
  have "F \<le> (S - i) * F" using assms(3) by (cases "S - i") auto
  then have m: "min F ((S - i) * F) = F" by simp
  show ?thesis by (simp only: d take_replicate m)
qed

lemma tensor_row_length:
  assumes "shape t = [N, F]" "length (elems t) = N * F" "j < N"
  shows "length (tensor_row t j) = F"
proof -
  have "j * F + F \<le> N * F"
  proof -
    have "Suc j \<le> N" using assms(3) by simp
    then have "Suc j * F \<le> N * F" by (rule mult_le_mono1)
    then show ?thesis by (simp add: add.commute)
  qed
  then show ?thesis using assms(1,2) by (simp add: tensor_row_def stride_def)
qed

lemma perm_facts:
  assumes "mset p = mset [0..<N]"
  shows "distinct p" "set p = {0..<N}" "length p = N"
proof -
  show "distinct p" using assms by (metis distinct_upt mset_eq_imp_distinct_iff)
  show "set p = {0..<N}" using assms by (metis atLeastLessThan_upt mset_eq_setD)
  show "length p = N" using assms by (metis length_upt minus_nat.diff_0 mset_eq_length)
qed

lemma to_fixed_size_bag_eq:
  assumes sh: "shape bag = [N, F]" and p: "mset (randperm N) = mset [0..<N]"
  shows "to_fixed_size_bag randperm bag (int S) =
     Inr (\<lparr>shape = [S, F],
           elems = concat (map (tensor_row bag) (take S (randperm N)))
                   @ replicate ((S - min S N) * F) 0\<rparr>, int (min S N))"
proof -
  note pf = perm_facts[OF p]
  define idxs where "idxs = take S (randperm N)"
  have k: "length idxs = min S N" by (simp add: idxs_def pf(3))
  have "set idxs \<subseteq> set (randperm N)" unfolding idxs_def by (rule set_take_subset)
  then have a: "list_all (\<lambda>i. i < N) idxs" using pf(2) by (auto simp: list_all_iff)
  have s: "slice_to (randperm N) (int S) = idxs" by (simp add: slice_to_def idxs_def)
  have ir: "index_rows bag idxs =
      Inr \<lparr>shape = [min S N, F], elems = concat (map (tensor_row bag) idxs)\<rparr>"
    using a by (simp add: index_rows_def sh k)
  have z: "zeros (int S - int (min S N)) F =
      Inr \<lparr>shape = [S - min S N, F], elems = replicate ((S - min S N) * F) 0\<rparr>"
    by (simp add: zeros_def) (simp add: nat_diff_distrib' min_def)
  have c: "cat \<lparr>shape = [min S N, F], elems = concat (map (tensor_row bag) idxs)\<rparr>
               \<lparr>shape = [S - min S N, F], elems = replicate ((S - min S N) * F) 0\<rparr>
      = Inr \<lparr>shape = [S, F],
             elems = concat (map (tensor_row bag) idxs) @ replicate ((S - min S N) * F) 0\<rparr>"
    by (simp add: cat_def dim_def)
  have m: "min (int S) (int N) = int (min S N)" by simp
  show ?thesis
    unfolding to_fixed_size_bag_def
    by (simp add: sh dim_def list_get_def bind_err_def s ir z c m Let_def idxs_def[symmetric]
        del: of_nat_min)
qed

text \<open>
  C1. For a well-formed two-dimensional bag of shape [N, F], a target size S and any
  permutation drawn by \<open>randperm\<close>, \<open>_to_fixed_size_bag\<close> returns a pair
  (padded, effective length): padded has shape [S, F] (exactly S rows); the effective
  length is min S N, that is S when N \<ge> S and N when N < S; every row from min S N up to
  S - 1 is the zero vector of length F; and the rows below min S N are rows of the bag at
  pairwise distinct positions (the first min S N entries of the permutation).
\<close>

theorem to_fixed_size_bag_2d:
  assumes sh: "shape bag = [N, F]" and wf: "wf_tensor bag"
    and p: "mset (randperm N) = mset [0..<N]"
  shows "\<exists>padded. to_fixed_size_bag randperm bag (int S) = Inr (padded, int (min S N))
     \<and> shape padded = [S, F] \<and> wf_tensor padded
     \<and> (\<forall>i. min S N \<le> i \<and> i < S \<longrightarrow> tensor_row padded i = replicate F 0)
     \<and> (\<forall>i. i < min S N \<longrightarrow>
            randperm N ! i < N \<and> tensor_row padded i = tensor_row bag (randperm N ! i))
     \<and> distinct (take (min S N) (randperm N))"
proof -
  note pf = perm_facts[OF p]
  define idxs where "idxs = take S (randperm N)"
  define rows where "rows = map (tensor_row bag) idxs"
  define padded where
    "padded = \<lparr>shape = [S, F], elems = concat rows @ replicate ((S - min S N) * F) 0\<rparr>"
  have k: "length idxs = min S N" by (simp add: idxs_def pf(3))
  have lt: "j < N" if "j \<in> set idxs" for j
  proof -
    have "set idxs \<subseteq> set (randperm N)" unfolding idxs_def by (rule set_take_subset)
    with that pf(2) show ?thesis by auto
  qed
  have len: "length (elems bag) = N * F" using wf sh by (simp add: wf_tensor_def)
  have rl: "\<forall>xs \<in> set rows. length xs = F"
    using tensor_row_length[OF sh len] lt by (auto simp: rows_def)
  have lr: "length rows = min S N" by (simp add: rows_def k)
  have lc: "length (concat rows) = min S N * F"
    using length_concat_rows[OF rl] lr by simp
  have st: "stride padded = F" by (simp add: padded_def stride_def)
  have e: "to_fixed_size_bag randperm bag (int S) = Inr (padded, int (min S N))"
    using to_fixed_size_bag_eq[where randperm=randperm and N=N and bag=bag and F=F and S=S, OF sh p]
    by (simp add: padded_def rows_def idxs_def)
  have s: "shape padded = [S, F]" by (simp add: padded_def)
  have "min S N * F + (S - min S N) * F = (min S N + (S - min S N)) * F"
    by (simp only: add_mult_distrib)
  then have "min S N * F + (S - min S N) * F = S * F" by simp
  then have w: "wf_tensor padded" by (simp add: wf_tensor_def padded_def lc)
  have zr: "\<forall>i. min S N \<le> i \<and> i < S \<longrightarrow> tensor_row padded i = replicate F 0"
  proof (intro allI impI)
    fix i assume "min S N \<le> i \<and> i < S"
    then have "min S N \<le> i" and "i < S" by simp_all
    then have "take F (drop (i * F) (concat rows @ replicate ((S - min S N) * F) (0::real)))
        = replicate F 0"
      by (rule zero_row_nth[OF lc])
    then show "tensor_row padded i = replicate F 0"
      by (simp add: tensor_row_def st) (simp add: padded_def)
  qed
  have sr: "\<forall>i. i < min S N \<longrightarrow>
      randperm N ! i < N \<and> tensor_row padded i = tensor_row bag (randperm N ! i)"
  proof (intro allI impI)
    fix i assume i: "i < min S N"
    then have il: "i < length idxs" by (simp add: k)
    have ii: "idxs ! i = randperm N ! i" using i by (simp add: idxs_def)
    have "idxs ! i \<in> set idxs" using il by simp
    then have a: "randperm N ! i < N" using lt ii by simp
    have "take F (drop (i * F) (concat rows @ replicate ((S - min S N) * F) (0::real)))
        = rows ! i"
      using i lr by (intro concat_row_nth[OF rl]) simp
    also have "\<dots> = tensor_row bag (randperm N ! i)" using il ii by (simp add: rows_def)
    finally have "tensor_row padded i = tensor_row bag (randperm N ! i)"
      by (simp add: tensor_row_def st) (simp add: padded_def)
    with a show "randperm N ! i < N \<and> tensor_row padded i = tensor_row bag (randperm N ! i)"
      by simp
  qed
  have d: "distinct (take (min S N) (randperm N))" using pf(1) by (rule distinct_take)
  from e s w zr sr d show ?thesis by blast
qed

text \<open>A bag of one row, and a deterministic stand-in for the permutation.\<close>

definition bag_demo :: tensor where
  "bag_demo = \<lparr>shape = [1, 2], elems = [3, 4]\<rparr>"

definition randperm_demo :: "nat \<Rightarrow> nat list" where
  "randperm_demo n = rev [0..<n]"

theorem to_fixed_size_bag_2d_witness:
  "to_fixed_size_bag randperm_demo bag_demo 3 =
     Inr (\<lparr>shape = [3, 2], elems = [3, 4, 0, 0, 0, 0]\<rparr>, 1)"
proof -
  have sh: "shape bag_demo = [1, 2]" by (simp add: bag_demo_def)
  have wf: "wf_tensor bag_demo" by (simp add: wf_tensor_def bag_demo_def)
  have p: "mset (randperm_demo 1) = mset [0..<1]" by (simp add: randperm_demo_def)
  from to_fixed_size_bag_2d[where randperm=randperm_demo and N=1 and bag=bag_demo and F=2 and S=3,
      OF sh wf p]
  obtain padded where e: "to_fixed_size_bag randperm_demo bag_demo (int 3) = Inr (padded, int (min 3 1))"
    and s: "shape padded = [3, 2]" by blast
  have "to_fixed_size_bag randperm_demo bag_demo (int 3) =
     Inr (\<lparr>shape = [3, 2], elems = [3, 4, 0, 0, 0, 0]\<rparr>, 1)"
    using to_fixed_size_bag_eq[where randperm=randperm_demo and N=1 and bag=bag_demo and F=2
        and S=3, OF sh p]
    by (simp add: randperm_demo_def tensor_row_def stride_def bag_demo_def numeral_eq_Suc)
  then show ?thesis by simp
qed

text \<open>
  A bag of more than two dimensions never yields a fixed-size bag: the rows keep all
  their axes, and the two-dimensional padding cannot be concatenated to them.
\<close>

lemma to_fixed_size_bag_high_dim:
  assumes "dim bag > 2"
  shows "\<exists>e. to_fixed_size_bag randperm bag s = Inl e"
proof (cases "to_fixed_size_bag randperm bag s")
  case (Inl e)
  then show ?thesis by simp
next
  case (Inr r)
  from assms obtain n a b rest where sh: "shape bag = n # a # b # rest"
    by (cases "shape bag"; cases "tl (shape bag)"; cases "tl (tl (shape bag))")
       (auto simp: dim_def)
  from Inr obtain samples z where
    i: "index_rows bag (slice_to (randperm n) s) = Inr samples"
    and zz: "zeros (s - int (length (slice_to (randperm n) s))) a = Inr z"
    and c: "cat samples z = Inr (fst r)"
    unfolding to_fixed_size_bag_def
    by (auto simp: sh bind_err_def list_get_def index_rows_def Let_def
        split: sum.splits if_splits)
  from i have ss: "shape samples = length (slice_to (randperm n) s) # a # b # rest"
    by (auto simp: index_rows_def sh split: if_splits)
  from zz have sz: "length (shape z) = 2" by (auto simp: zeros_def split: if_splits)
  from c ss sz show ?thesis by (auto simp: cat_def dim_def split: if_splits)
qed

definition bag4_demo :: tensor where
  "bag4_demo = \<lparr>shape = [1, 1, 2, 1], elems = [4, 6]\<rparr>"

text \<open>
  C2. For the four-dimensional bag of shape [1, 1, 2, 1] with elements 4 and 6 the
  reduction over the axes 2 and 3 is the bag [[5]], and the fixed-size bag of that
  reduction for size 1 is ([[5]], 1); the function itself, given the four-dimensional bag,
  raises \<open>RuntimeError\<close> in \<open>torch.cat\<close>, since it samples the rows of the unreduced bag.
\<close>

theorem to_fixed_size_bag_ignores_reduction:
  "mean_dims_2_3 bag4_demo = Inr \<lparr>shape = [1, 1], elems = [5]\<rparr>
   \<and> to_fixed_size_bag randperm_demo bag4_demo 1 =
       Inl (RuntimeError ''Tensors must have same number of dimensions'')
   \<and> to_fixed_size_bag randperm_demo \<lparr>shape = [1, 1], elems = [5]\<rparr> 1 =
       Inr (\<lparr>shape = [1, 1], elems = [5]\<rparr>, 1)"
  by (simp add: to_fixed_size_bag_def mean_dims_2_3_def bag4_demo_def randperm_demo_def
      dim_def bind_err_def list_get_def slice_to_def index_rows_def tensor_row_def stride_def
      zeros_def cat_def Let_def numeral_2_eq_2)

lemma load_bags_list_paths:
  "load_bags torch_load (BagList items) = Inr ts \<Longrightarrow> b \<in> set items \<Longrightarrow> \<exists>p. b = PathStr p"
proof (induction items arbitrary: ts)
  case Nil
  then show ?case by simp
next
  case (Cons x xs)
  from Cons.prems(1) obtain t ts' where x: "(case x of PathStr p \<Rightarrow> torch_load p
      | _ \<Rightarrow> Inl (invalid_bag_type x)) = Inr t"
    and r: "load_bags torch_load (BagList xs) = Inr ts'"
    by (auto simp: bind_err_def split: sum.splits)
  from x have "\<exists>p. x = PathStr p" by (cases x) auto
  with Cons.IH[OF r] Cons.prems(2) show ?case by auto
qed

definition ds_demo :: multi_bag_dataset where
  "ds_demo = \<lparr>bags = [BagList [NdArray bag_demo]], n_bags = 1, bag_size = Some 3\<rparr>"

definition torch_load_demo :: "string \<Rightarrow> py_error + tensor" where
  "torch_load_demo p = Inr bag_demo"

text \<open>
  C6. Item 0 of a dataset whose slide entry is the list of one numpy array raises
  \<open>ValueError\<close> "Invalid bag type", and so does the list of one tensor, although both
  items are of the accepted kinds; only the list of a path is loaded.
\<close>

theorem getitem_rejects_array_in_list:
  "getitem torch_load_demo randperm_demo ds_demo 0 =
     Inl (ValueError (''Invalid bag type: <class '' @ [CHR 0x27] @ ''numpy.ndarray''
                        @ [CHR 0x27] @ ''>''))
   \<and> getitem torch_load_demo randperm_demo (ds_demo\<lparr>bags := [BagList [Tensor bag_demo]]\<rparr>) 0 =
     Inl (ValueError (''Invalid bag type: <class '' @ [CHR 0x27] @ ''torch.Tensor''
                        @ [CHR 0x27] @ ''>''))
   \<and> getitem torch_load_demo randperm_demo (ds_demo\<lparr>bags := [BagList [PathStr ''a.pt'']]\<rparr>) 0 =
     Inr [(\<lparr>shape = [3, 2], elems = [3, 4, 0, 0, 0, 0]\<rparr>, 1)]"
proof -
  have f: "to_fixed_size_bag randperm_demo bag_demo 3 =
     Inr (\<lparr>shape = [3, 2], elems = [3, 4, 0, 0, 0, 0]\<rparr>, 1)"
    by (simp add: to_fixed_size_bag_def bag_demo_def randperm_demo_def
      dim_def bind_err_def list_get_def slice_to_def index_rows_def tensor_row_def stride_def
      zeros_def cat_def Let_def numeral_eq_Suc)
  show ?thesis
    by (simp add: getitem_def ds_demo_def py_index_def slide_len_def bind_err_def
        invalid_bag_type_def quoted_def torch_load_demo_def f)
qed

section \<open>Record files: \<^verbatim>\<open>tfrecord_iterator\<close> (tfrecord/reader.py)\<close>

text \<open>
  A byte is a natural number below 256. An open file is the bytes that reading returns
  and the size \<^verbatim>\<open>os.path.getsize\<close> reports (the two differ for a gzip file). The
  iterator is a generator: its result is the list of the payloads it yields, in order,
  and the exception that ended it, if any. The reusable buffer \<open>datum_bytes\<close> only
  carries each payload and is not modelled.
\<close>

type_synonym byte = nat

record tf_file =
  file_bytes :: "byte list"
  file_size :: nat

text \<open>\<^verbatim>\<open>struct.unpack("<Q", b)\<close>: little-endian.\<close>

fun le_decode :: "byte list \<Rightarrow> nat" where
  "le_decode [] = 0"
| "le_decode (b # bs) = b + 256 * le_decode bs"

text \<open>
  The loop of \<open>read_records\<close> from a position of the file up to \<open>end_offset\<close>; each
  \<^verbatim>\<open>file.readinto\<close> returns the bytes that are left, up to the length asked for.
\<close>

function read_loop :: "byte list \<Rightarrow> nat \<Rightarrow> nat \<Rightarrow> byte list list \<times> py_error option" where
  "read_loop bs pos end_offset =
     (if pos < end_offset then
        if length (take 8 (drop pos bs)) \<noteq> 8 then
          ([], Some (RuntimeError ''Failed to read the record size.''))
        else if length (take 4 (drop (pos + 8) bs)) \<noteq> 4 then
          ([], Some (RuntimeError ''Failed to read the start token.''))
        else
          let len = le_decode (take 8 (drop pos bs));
              datum = take len (drop (pos + 12) bs)
          in if length datum \<noteq> len then
               ([], Some (RuntimeError ''Failed to read the record.''))
             else if length (take 4 (drop (pos + 12 + len) bs)) \<noteq> 4 then
               ([], Some (RuntimeError ''Failed to read the end token.''))
             else
               (case read_loop bs (pos + 16 + len) end_offset of
                  (rs, e) \<Rightarrow> (datum # rs, e))
      else ([], None))"
  by pat_completeness auto
termination
  by (relation "measure (\<lambda>(bs, pos, end_offset). end_offset - pos)") auto

declare read_loop.simps [simp del]

definition read_records ::
  "tf_file \<Rightarrow> nat \<Rightarrow> nat option \<Rightarrow> nat option \<Rightarrow> byte list list \<times> py_error option" where
  "read_records f cur start_offset end_offset =
     read_loop (file_bytes f)
       (case start_offset of None \<Rightarrow> cur | Some s \<Rightarrow> s)
       (case end_offset of None \<Rightarrow> file_size f | Some e \<Rightarrow> e)"

text \<open>
  \<^verbatim>\<open>np.array_split(xs, n)\<close>: the first \<open>len(xs) mod n\<close> parts have one element more
  than the others.
\<close>

fun chunks :: "'a list \<Rightarrow> nat list \<Rightarrow> 'a list list" where
  "chunks xs [] = []"
| "chunks xs (s # ss) = take s xs # chunks (drop s xs) ss"

definition section_sizes :: "nat \<Rightarrow> nat \<Rightarrow> nat list" where
  "section_sizes ntotal n =
     replicate (ntotal mod n) (ntotal div n + 1) @ replicate (n - ntotal mod n) (ntotal div n)"

definition array_split :: "'a list \<Rightarrow> int \<Rightarrow> py_error + 'a list list" where
  "array_split xs n =
     (if n \<le> 0 then Inl (ValueError ''number sections must be larger than 0.'')
      else Inr (chunks xs (section_sizes (length xs) (nat n))))"

text \<open>
  Two generators in sequence (\<^verbatim>\<open>yield from a; yield from b\<close>): an exception in the
  first ends the whole.
\<close>

definition then_yield ::
  "'a list \<times> py_error option \<Rightarrow> 'a list \<times> py_error option \<Rightarrow> 'a list \<times> py_error option" where
  "then_yield a b = (case snd a of Some e \<Rightarrow> a | None \<Rightarrow> (fst a @ fst b, snd b))"

definition raised :: "py_error \<Rightarrow> 'a list \<times> py_error option" where
  "raised e = ([], Some e)"

text \<open>
  The block \<^verbatim>\<open>if clip: ... else: ...\<close>: the clip offset and the clipped index. A
  truthy \<open>clip\<close> is any integer but 0; indexing and slicing follow Python (negative
  values count from the end, an index out of range raises).
\<close>

definition clip_index :: "nat list \<Rightarrow> int option \<Rightarrow> py_error + (nat option \<times> nat list)" where
  "clip_index index0 clip =
     (case clip of
        None \<Rightarrow> Inr (None, index0)
      | Some c \<Rightarrow>
          if c \<noteq> 0 then
            bind_err (if c = int (length index0) then Inr None
                      else bind_err (py_index index0 c) (\<lambda>off. Inr (Some off)))
              (\<lambda>clip_offset. Inr (clip_offset, slice_to index0 c))
          else Inr (None, index0))"

text \<open>The block for a shard: the first and the last byte offset the worker reads.\<close>

definition shard_range ::
  "nat list \<Rightarrow> nat option \<Rightarrow> int \<Rightarrow> int \<Rightarrow> py_error + (nat \<times> nat option)" where
  "shard_range index1 clip_offset shard_idx shard_count =
     bind_err (array_split index1 shard_count) (\<lambda>all_shard_indices.
     bind_err (bind_err (py_index all_shard_indices shard_idx) (\<lambda>own. py_index own 0))
       (\<lambda>start_byte.
         if shard_idx < shard_count - 1 then
           bind_err (bind_err (py_index all_shard_indices (shard_idx + 1))
                       (\<lambda>nxt. py_index nxt 0))
             (\<lambda>end_byte. Inr (start_byte, Some end_byte))
         else Inr (start_byte, clip_offset)))"

text \<open>
  \<open>tfrecord_iterator\<close>. The index is the list of the rows of the index array (a
  one-dimensional array is a single row); \<^verbatim>\<open>np.random.choice\<close> is the parameter
  \<open>choice\<close>.
\<close>

definition tfrecord_iterator ::
  "(nat list \<Rightarrow> nat) \<Rightarrow> tf_file \<Rightarrow> (nat \<times> nat) list option \<Rightarrow> (int \<times> int) option \<Rightarrow>
   int option \<Rightarrow> string option \<Rightarrow> bool \<Rightarrow> byte list list \<times> py_error option" where
  "tfrecord_iterator choice f index shard clip compression_type random_start =
     (if compression_type \<noteq> Some ''gzip'' \<and> compression_type \<noteq> None then
        raised (ValueError ''compression_type should be either gzip or None'')
      else
        case index of
          None \<Rightarrow> read_records f 0 None None
        | Some rows \<Rightarrow>
            (case clip_index (map fst rows) clip of
               Inl e \<Rightarrow> raised e
             | Inr (clip_offset, index1) \<Rightarrow>
                 (case shard of
                    None \<Rightarrow>
                      if random_start then
                        let offset = choice index1 in
                        then_yield (read_records f 0 (Some offset) clip_offset)
                          (read_records f 0 (Some 0) (Some offset))
                      else read_records f 0 (Some 0) clip_offset
                  | Some (shard_idx, shard_count) \<Rightarrow>
                      (case shard_range index1 clip_offset shard_idx shard_count of
                         Inl e \<Rightarrow> raised e
                       | Inr (start_byte, end_byte) \<Rightarrow>
                           read_records f 0 (Some start_byte) end_byte))))"

text \<open>
  The layout the reader decodes: a record on disk is its length as eight little-endian
  bytes, four bytes of checksum, the payload, and four bytes of checksum. A frame keeps
  the payload and the two checksums, whose values the reader does not inspect.
\<close>

record frame =
  payload :: "byte list"
  length_crc :: "byte list"
  data_crc :: "byte list"

fun le_encode :: "nat \<Rightarrow> nat \<Rightarrow> byte list" where
  "le_encode 0 n = []"
| "le_encode (Suc k) n = (n mod 256) # le_encode k (n div 256)"

definition frame_bytes :: "frame \<Rightarrow> byte list" where
  "frame_bytes fr = le_encode 8 (length (payload fr)) @ length_crc fr @ payload fr @ data_crc fr"

definition wf_frame :: "frame \<Rightarrow> bool" where
  "wf_frame fr =
     (length (payload fr) < 2 ^ 64 \<and> length (length_crc fr) = 4 \<and> length (data_crc fr) = 4)"

definition frames_bytes :: "frame list \<Rightarrow> byte list" where
  "frames_bytes frs = concat (map frame_bytes frs)"

text \<open>The byte offset at which frame number i starts (the file length for i past the end).\<close>

definition frame_offset :: "frame list \<Rightarrow> nat \<Rightarrow> nat" where
  "frame_offset frs i = length (frames_bytes (take i frs))"

text \<open>
  An uncompressed record file of the given frames together with its index: one row per
  frame, whose first column is the offset of the frame.
\<close>

definition indexed_file :: "frame list \<Rightarrow> tf_file \<Rightarrow> (nat \<times> nat) list \<Rightarrow> bool" where
  "indexed_file frs f rows =
     (list_all wf_frame frs \<and> file_bytes f = frames_bytes frs \<and>
      file_size f = length (frames_bytes frs) \<and>
      map fst rows = map (frame_offset frs) [0..<length frs])"

text \<open>
  How many index entries a clip value keeps, and the clip values that stay within an
  index of M entries.
\<close>

definition kept :: "nat \<Rightarrow> int option \<Rightarrow> nat" where
  "kept M clip =
     (case clip of
        None \<Rightarrow> M
      | Some c \<Rightarrow> if c = 0 then M else if 0 < c then nat c else nat (int M + c))"

definition clip_ok :: "nat \<Rightarrow> int option \<Rightarrow> bool" where
  "clip_ok M clip = (case clip of None \<Rightarrow> True | Some c \<Rightarrow> - int M \<le> c \<and> c \<le> int M)"

subsection \<open>Reading the frames of a file\<close>

lemma le_decode_encode: "le_decode (le_encode k n) = n mod 256 ^ k"
proof (induction k arbitrary: n)
  case 0
  then show ?case by simp
next
  case (Suc k)
  have "n mod 256 + 256 * (n div 256 mod 256 ^ k) = n mod (256 * 256 ^ k)"
    by (simp add: mod_mult2_eq)
  with Suc show ?case by simp
qed

lemma length_le_encode: "length (le_encode k n) = k"
  by (induction k arbitrary: n) auto

lemma le_decode_encode_8: "n < 2 ^ 64 \<Longrightarrow> le_decode (le_encode 8 n) = n"
  by (simp add: le_decode_encode)

lemma length_frame_bytes:
  "wf_frame fr \<Longrightarrow> length (frame_bytes fr) = 16 + length (payload fr)"
  by (simp add: frame_bytes_def wf_frame_def length_le_encode)

lemma read_loop_done: "\<not> pos < e \<Longrightarrow> read_loop bs pos e = ([], None)"
  by (subst read_loop.simps) simp

lemma read_loop_frame:
  assumes wf: "wf_frame fr" and lt: "length pre < e"
  shows "read_loop (pre @ frame_bytes fr @ post) (length pre) e =
     (case read_loop (pre @ frame_bytes fr @ post) (length pre + length (frame_bytes fr)) e of
        (rs, err) \<Rightarrow> (payload fr # rs, err))"
proof -
  define h where "h = le_encode 8 (length (payload fr))"
  have lh: "length h = 8" by (simp add: h_def length_le_encode)
  have dh: "le_decode h = length (payload fr)"
    using wf by (simp add: h_def le_decode_encode_8 wf_frame_def)
  have lc: "length (length_crc fr) = 4" "length (data_crc fr) = 4"
    using wf by (simp_all add: wf_frame_def)
  have fb: "frame_bytes fr = h @ length_crc fr @ payload fr @ data_crc fr"
    by (simp add: frame_bytes_def h_def)
  have lf: "length (frame_bytes fr) = 16 + length (payload fr)"
    using wf by (rule length_frame_bytes)
  define bs where "bs = pre @ frame_bytes fr @ post"
  have d0: "drop (length pre) bs = h @ length_crc fr @ payload fr @ data_crc fr @ post"
    by (simp add: bs_def fb)
  have d8: "drop (length pre + 8) bs = length_crc fr @ payload fr @ data_crc fr @ post"
    using lh by (simp add: bs_def fb)
  have d12: "drop (length pre + 12) bs = payload fr @ data_crc fr @ post"
    using lh lc by (simp add: bs_def fb)
  have d12l: "drop (length pre + 12 + length (payload fr)) bs = data_crc fr @ post"
    using lh lc by (simp add: bs_def fb)
  have t0: "take 8 (drop (length pre) bs) = h" using lh by (simp add: d0)
  have t8: "take 4 (drop (length pre + 8) bs) = length_crc fr" using lc by (simp add: d8)
  have t12: "take (length (payload fr)) (drop (length pre + 12) bs) = payload fr"
    by (simp add: d12)
  have t12l: "take 4 (drop (length pre + 12 + length (payload fr)) bs) = data_crc fr"
    using lc by (simp add: d12l)
  have "read_loop bs (length pre) e =
     (case read_loop bs (length pre + 16 + length (payload fr)) e of
        (rs, err) \<Rightarrow> (payload fr # rs, err))"
    apply (subst read_loop.simps)
    apply (simp only: Let_def t0 dh)
    apply (simp only: t8 t12 t12l)
    using lt apply (simp add: lh lc)
    done
  then show ?thesis by (simp add: bs_def lf add.assoc)
qed

lemma read_loop_frames:
  assumes "list_all wf_frame frs"
  shows "read_loop (pre @ frames_bytes frs @ post) (length pre)
           (length pre + length (frames_bytes frs)) = (map payload frs, None)"
  using assms
proof (induction frs arbitrary: pre)
  case Nil
  then show ?case by (simp add: frames_bytes_def read_loop_done)
next
  case (Cons fr frs)
  then have wf: "wf_frame fr" and wfs: "list_all wf_frame frs" by simp_all
  have fb: "frames_bytes (fr # frs) = frame_bytes fr @ frames_bytes frs"
    by (simp add: frames_bytes_def)
  have pos: "0 < length (frame_bytes fr)" using length_frame_bytes[OF wf] by simp
  then have lt: "length pre < length pre + length (frames_bytes (fr # frs))"
    by (simp add: fb)
  have ih: "read_loop ((pre @ frame_bytes fr) @ frames_bytes frs @ post)
        (length (pre @ frame_bytes fr))
        (length (pre @ frame_bytes fr) + length (frames_bytes frs)) = (map payload frs, None)"
    by (rule Cons.IH[OF wfs])
  have "read_loop (pre @ frame_bytes fr @ (frames_bytes frs @ post)) (length pre)
          (length pre + length (frames_bytes (fr # frs)))
      = (case read_loop (pre @ frame_bytes fr @ (frames_bytes frs @ post))
                (length pre + length (frame_bytes fr))
                (length pre + length (frames_bytes (fr # frs))) of
           (rs, err) \<Rightarrow> (payload fr # rs, err))"
    by (rule read_loop_frame[OF wf lt])
  also have "\<dots> = (payload fr # map payload frs, None)"
    using ih by (simp add: fb add.assoc)
  finally show ?case by (simp add: fb)
qed

lemma frames_bytes_append: "frames_bytes (xs @ ys) = frames_bytes xs @ frames_bytes ys"
  by (simp add: frames_bytes_def)

lemma read_loop_between:
  assumes wf: "list_all wf_frame frs" and ij: "i \<le> j"
  shows "read_loop (frames_bytes frs) (frame_offset frs i) (frame_offset frs j)
           = (map payload (take (j - i) (drop i frs)), None)"
proof -
  define a where "a = take i frs"
  define b where "b = take (j - i) (drop i frs)"
  define c where "c = drop (j - i) (drop i frs)"
  have frs: "frs = a @ b @ c" by (simp only: a_def b_def c_def append_take_drop_id)
  have tj: "take j frs = a @ b"
  proof -
    have "take j frs = take (i + (j - i)) frs" using ij by simp
    also have "\<dots> = take i frs @ take (j - i) (drop i frs)" by (rule take_add)
    finally show ?thesis by (simp add: a_def b_def)
  qed
  have wb: "list_all wf_frame b"
    using wf unfolding b_def list_all_iff by (meson in_set_dropD in_set_takeD)
  have oi: "frame_offset frs i = length (frames_bytes a)" by (simp add: frame_offset_def a_def)
  have oj: "frame_offset frs j = length (frames_bytes a) + length (frames_bytes b)"
    by (simp add: frame_offset_def tj frames_bytes_append)
  have "read_loop (frames_bytes a @ frames_bytes b @ frames_bytes c) (length (frames_bytes a))
          (length (frames_bytes a) + length (frames_bytes b)) = (map payload b, None)"
    by (rule read_loop_frames[OF wb])
  moreover have "frames_bytes frs = frames_bytes a @ frames_bytes b @ frames_bytes c"
    by (subst frs) (simp add: frames_bytes_append)
  ultimately show ?thesis by (simp add: oi oj b_def)
qed

subsection \<open>The parts of an index\<close>

lemma length_chunks: "length (chunks xs ss) = length ss"
  by (induction ss arbitrary: xs) auto

lemma chunks_nth:
  "k < length ss \<Longrightarrow> chunks xs ss ! k = take (ss ! k) (drop (sum_list (take k ss)) xs)"
proof (induction ss arbitrary: xs k)
  case Nil
  then show ?case by simp
next
  case (Cons s ss)
  show ?case
  proof (cases k)
    case 0
    then show ?thesis by simp
  next
    case (Suc j)
    with Cons.prems have "j < length ss" by simp
    from Cons.IH[OF this, of "drop s xs"] Suc show ?thesis by (simp add: add.commute)
  qed
qed

lemma concat_chunks: "sum_list ss = length xs \<Longrightarrow> concat (chunks xs ss) = xs"
proof (induction ss arbitrary: xs)
  case Nil
  then show ?case by simp
next
  case (Cons s ss)
  then have "sum_list ss = length (drop s xs)" by simp
  from Cons.IH[OF this] show ?case by simp
qed

lemma chunks_map: "chunks (map g xs) ss = map (map g) (chunks xs ss)"
  by (induction ss arbitrary: xs) (auto simp: take_map drop_map)

lemma length_section_sizes: "0 < n \<Longrightarrow> length (section_sizes L n) = n"
  by (simp add: section_sizes_def)

lemma sum_section_sizes: "0 < n \<Longrightarrow> sum_list (section_sizes L n) = L"
proof -
  assume n: "0 < n"
  define q where "q = L div n"
  define r where "r = L mod n"
  have r: "r < n" using n by (simp add: r_def)
  have L: "L = q * n + r" by (simp add: q_def r_def)
  have "sum_list (section_sizes L n) = r * (q + 1) + (n - r) * q"
    by (simp add: section_sizes_def sum_list_replicate q_def r_def)
  also have "\<dots> = r + (r + (n - r)) * q" by (simp add: add_mult_distrib)
  also have "\<dots> = r + n * q" using r by simp
  finally show ?thesis using L by (simp add: mult.commute)
qed

lemma section_sizes_pos:
  assumes "0 < n" "n \<le> L" "k < n"
  shows "0 < section_sizes L n ! k"
proof -
  have "n * 1 \<le> L" using assms(2) by simp
  then have "1 \<le> L div n" using assms(1) by (simp add: less_eq_div_iff_mult_less_eq)
  moreover have "section_sizes L n ! k \<in> set (section_sizes L n)"
    using assms(1,3) by (simp add: length_section_sizes)
  ultimately show ?thesis by (auto simp: section_sizes_def)
qed

lemma sum_take_Suc:
  "k < length ss \<Longrightarrow> sum_list (take (Suc k) ss) = sum_list (take k ss) + ss ! k"
  by (simp add: take_Suc_conv_app_nth)

lemma sum_take_le: "sum_list (take k ss) \<le> sum_list (ss :: nat list)"
proof -
  have "sum_list ss = sum_list (take k ss) + sum_list (drop k ss)"
    by (metis append_take_drop_id sum_list_append)
  then show ?thesis by simp
qed

subsection \<open>Clipping and the byte range of a shard\<close>

lemma clip_index_ok:
  assumes ok: "clip_ok (length offs) clip"
  shows "\<exists>co. clip_index offs clip = Inr (co, take (kept (length offs) clip) offs) \<and>
     (case co of None \<Rightarrow> kept (length offs) clip = length offs
      | Some e \<Rightarrow> kept (length offs) clip < length offs \<and> e = offs ! kept (length offs) clip)"
proof (cases clip)
  case None
  then show ?thesis by (simp add: clip_index_def kept_def)
next
  case (Some c)
  with ok have r: "- int (length offs) \<le> c" "c \<le> int (length offs)"
    by (simp_all add: clip_ok_def)
  consider "c = 0" | "c = int (length offs)" "c \<noteq> 0" | "0 < c" "c < int (length offs)"
    | "c < 0" using r by linarith
  then show ?thesis
  proof cases
    case 1
    with Some show ?thesis by (simp add: clip_index_def kept_def)
  next
    case 2
    with Some show ?thesis by (simp add: clip_index_def kept_def slice_to_def bind_err_def)
  next
    case 3
    with Some show ?thesis
      by (simp add: clip_index_def kept_def slice_to_def bind_err_def py_index_def Let_def)
  next
    case 4
    with Some r show ?thesis
      by (simp add: clip_index_def kept_def slice_to_def bind_err_def py_index_def Let_def)
  qed
qed

lemma frame_offset_all: "length frs \<le> j \<Longrightarrow> frame_offset frs j = length (frames_bytes frs)"
  by (simp add: frame_offset_def)

lemma frame_offset_0: "frame_offset frs 0 = 0"
  by (simp add: frame_offset_def frames_bytes_def)

lemma part_first:
  assumes C: "0 < C" "C \<le> L" and k: "k < C" and L: "L \<le> length frs"
  shows "py_index (chunks (take L (map (frame_offset frs) [0..<length frs]))
                     (section_sizes L C) ! k) 0
           = Inr (frame_offset frs (sum_list (take k (section_sizes L C))))"
    and "sum_list (take (Suc k) (section_sizes L C))
           = sum_list (take k (section_sizes L C)) + section_sizes L C ! k"
    and "sum_list (take (Suc k) (section_sizes L C)) \<le> L"
    and "0 < section_sizes L C ! k"
proof -
  define ss where "ss = section_sizes L C"
  define offs where "offs = map (frame_offset frs) [0..<length frs]"
  have ls: "length ss = C" using C(1) by (simp add: ss_def length_section_sizes)
  have kl: "k < length ss" using k ls by simp
  show s1: "sum_list (take (Suc k) ss) = sum_list (take k ss) + ss ! k"
    using kl by (rule sum_take_Suc)
  have "sum_list (take (Suc k) ss) \<le> sum_list ss" by (rule sum_take_le)
  then show s2: "sum_list (take (Suc k) ss) \<le> L"
    using C(1) by (simp add: ss_def sum_section_sizes)
  show p: "0 < ss ! k" unfolding ss_def using C k by (rule section_sizes_pos)
  define a where "a = sum_list (take k ss)"
  have aL: "a < L" using s1 s2 p by (simp add: a_def)
  have own: "chunks (take L offs) ss ! k = take (ss ! k) (drop a (take L offs))"
    using kl by (simp add: chunks_nth a_def)
  have lo: "length offs = length frs" by (simp add: offs_def)
  have ne: "0 < length (take (ss ! k) (drop a (take L offs)))"
    using p aL L lo by simp
  have "take (ss ! k) (drop a (take L offs)) ! 0 = offs ! a"
    using p aL L lo by simp
  also have "\<dots> = frame_offset frs a" using aL L by (simp add: offs_def)
  finally have "take (ss ! k) (drop a (take L offs)) ! 0 = frame_offset frs a" .
  with ne have "py_index (take (ss ! k) (drop a (take L offs))) 0 = Inr (frame_offset frs a)"
    by (simp add: py_index_def Let_def)
  then show "py_index (chunks (take L offs) ss ! k) 0 = Inr (frame_offset frs (sum_list (take k ss)))"
    by (simp add: own a_def)
qed

lemma shard_range_ok:
  assumes C: "0 < C" "C \<le> L" and k: "k < C" and L: "L \<le> length frs"
  shows "shard_range (take L (map (frame_offset frs) [0..<length frs])) co (int k) (int C)
     = Inr (frame_offset frs (sum_list (take k (section_sizes L C))),
            if Suc k < C
            then Some (frame_offset frs (sum_list (take (Suc k) (section_sizes L C))))
            else co)"
proof -
  define parts where
    "parts = chunks (take L (map (frame_offset frs) [0..<length frs])) (section_sizes L C)"
  have lp: "length parts = C" using C(1) by (simp add: parts_def length_chunks length_section_sizes)
  have sp: "array_split (take L (map (frame_offset frs) [0..<length frs])) (int C) = Inr parts"
    using C(1) L by (simp add: array_split_def parts_def min_def)
  have pk: "py_index parts (int k) = Inr (parts ! k)"
    using k lp by (simp add: py_index_def Let_def)
  have f1: "py_index (parts ! k) 0 = Inr (frame_offset frs (sum_list (take k (section_sizes L C))))"
    unfolding parts_def by (rule part_first(1)[OF C k L])
  show ?thesis
  proof (cases "Suc k < C")
    case True
    have pk1: "py_index parts (int k + 1) = Inr (parts ! Suc k)"
      using True lp by (simp add: py_index_def Let_def nat_add_distrib)
    have f2: "py_index (parts ! Suc k) 0
        = Inr (frame_offset frs (sum_list (take (Suc k) (section_sizes L C))))"
      unfolding parts_def by (rule part_first(1)[OF C True L])
    have c: "int k < int C - 1" using True by simp
    show ?thesis
      unfolding shard_range_def using True c
      by (simp add: sp pk f1 pk1 f2 bind_err_def)
  next
    case False
    then have c: "\<not> int k < int C - 1" by simp
    show ?thesis
      unfolding shard_range_def using False c
      by (simp add: sp pk f1 bind_err_def)
  qed
qed

subsection \<open>What the iterator yields on an indexed file\<close>

lemma kept_le: "clip_ok M clip \<Longrightarrow> kept M clip \<le> M"
  by (auto simp: clip_ok_def kept_def split: option.splits)

lemma clip_resolved:
  assumes idx: "indexed_file frs f rows" and ok: "clip_ok (length frs) clip"
  shows "\<exists>co. clip_index (map fst rows) clip
            = Inr (co, take (kept (length frs) clip) (map (frame_offset frs) [0..<length frs]))
          \<and> (case co of None \<Rightarrow> file_size f | Some e \<Rightarrow> e)
            = frame_offset frs (kept (length frs) clip)"
proof -
  define offs where "offs = map (frame_offset frs) [0..<length frs]"
  have lo: "length offs = length frs" by (simp add: offs_def)
  have mf: "map fst rows = offs" using idx by (simp add: indexed_file_def offs_def)
  have fs: "file_size f = length (frames_bytes frs)" using idx by (simp add: indexed_file_def)
  have ok': "clip_ok (length offs) clip" using ok lo by simp
  from clip_index_ok[OF ok', unfolded lo] obtain co where
    c: "clip_index offs clip = Inr (co, take (kept (length frs) clip) offs)"
    and d: "(case co of None \<Rightarrow> kept (length frs) clip = length frs
      | Some e \<Rightarrow> kept (length frs) clip < length frs \<and> e = offs ! kept (length frs) clip)"
    by blast
  have "(case co of None \<Rightarrow> file_size f | Some e \<Rightarrow> e) = frame_offset frs (kept (length frs) clip)"
  proof (cases co)
    case None
    with d have "kept (length frs) clip = length frs" by simp
    then show ?thesis using None fs by (simp add: frame_offset_all)
  next
    case (Some e)
    with d have "kept (length frs) clip < length frs" "e = offs ! kept (length frs) clip"
      by simp_all
    then show ?thesis using Some by (simp add: offs_def)
  qed
  with c show ?thesis unfolding mf offs_def by blast
qed

lemma iterator_unsharded:
  assumes idx: "indexed_file frs f rows" and ok: "clip_ok (length frs) clip"
  shows "tfrecord_iterator choice f (Some rows) None clip None False
           = (map payload (take (kept (length frs) clip) frs), None)"
proof -
  from clip_resolved[OF idx ok] obtain co where
    c: "clip_index (map fst rows) clip
          = Inr (co, take (kept (length frs) clip) (map (frame_offset frs) [0..<length frs]))"
    and e: "(case co of None \<Rightarrow> file_size f | Some e \<Rightarrow> e)
          = frame_offset frs (kept (length frs) clip)"
    by blast
  have wf: "list_all wf_frame frs" and fb: "file_bytes f = frames_bytes frs"
    using idx by (simp_all add: indexed_file_def)
  have "read_loop (frames_bytes frs) (frame_offset frs 0) (frame_offset frs (kept (length frs) clip))
      = (map payload (take (kept (length frs) clip - 0) (drop 0 frs)), None)"
    by (rule read_loop_between[OF wf]) simp
  then have "read_records f 0 (Some 0) co = (map payload (take (kept (length frs) clip) frs), None)"
    by (simp add: read_records_def e fb frame_offset_0)
  then show ?thesis by (simp add: tfrecord_iterator_def c)
qed

lemma iterator_shard:
  assumes idx: "indexed_file frs f rows" and ok: "clip_ok (length frs) clip"
    and C: "0 < C" "C \<le> kept (length frs) clip" and k: "k < C"
  shows "tfrecord_iterator choice f (Some rows) (Some (int k, int C)) clip None rs
           = (chunks (map payload (take (kept (length frs) clip) frs))
                (section_sizes (kept (length frs) clip) C) ! k, None)"
proof -
  define L where "L = kept (length frs) clip"
  define ss where "ss = section_sizes L C"
  define a where "a = sum_list (take k ss)"
  define b where "b = sum_list (take (Suc k) ss)"
  have LM: "L \<le> length frs" unfolding L_def using ok by (rule kept_le)
  have CL: "C \<le> L" using C(2) by (simp add: L_def)
  from clip_resolved[OF idx ok] obtain co where
    c: "clip_index (map fst rows) clip
          = Inr (co, take L (map (frame_offset frs) [0..<length frs]))"
    and e: "(case co of None \<Rightarrow> file_size f | Some e \<Rightarrow> e) = frame_offset frs L"
    unfolding L_def by blast
  have wf: "list_all wf_frame frs" and fb: "file_bytes f = frames_bytes frs"
    using idx by (simp_all add: indexed_file_def)
  note pf = part_first[OF C(1) CL k LM]
  have ab: "b = a + ss ! k" using pf(2) by (simp add: a_def b_def ss_def)
  have bL: "b \<le> L" using pf(3) by (simp add: b_def ss_def)
  have ls: "length ss = C" using C(1) by (simp add: ss_def length_section_sizes)
  have sr: "shard_range (take L (map (frame_offset frs) [0..<length frs])) co (int k) (int C)
     = Inr (frame_offset frs a, if Suc k < C then Some (frame_offset frs b) else co)"
    using shard_range_ok[OF C(1) CL k LM] by (simp add: a_def b_def ss_def)
  have en: "(case (if Suc k < C then Some (frame_offset frs b) else co) of
               None \<Rightarrow> file_size f | Some e \<Rightarrow> e) = frame_offset frs b"
  proof (cases "Suc k < C")
    case True
    then show ?thesis by simp
  next
    case False
    with k have "Suc k = C" by simp
    then have "b = sum_list ss" using ls by (simp add: b_def)
    then have "b = L" using C(1) by (simp add: ss_def sum_section_sizes)
    with False e show ?thesis by simp
  qed
  have "read_loop (frames_bytes frs) (frame_offset frs a) (frame_offset frs b)
      = (map payload (take (b - a) (drop a frs)), None)"
    by (rule read_loop_between[OF wf]) (simp add: ab)
  then have rr: "read_records f 0 (Some (frame_offset frs a))
        (if Suc k < C then Some (frame_offset frs b) else co)
      = (map payload (take (ss ! k) (drop a frs)), None)"
    using en by (simp add: read_records_def fb ab)
  have "chunks (map payload (take L frs)) ss ! k
      = take (ss ! k) (drop a (map payload (take L frs)))"
    using k ls by (simp add: chunks_nth a_def)
  also have "\<dots> = map payload (take (ss ! k) (drop a (take L frs)))"
    by (simp add: take_map drop_map)
  also have "take (ss ! k) (drop a (take L frs)) = take (ss ! k) (drop a frs)"
  proof -
    have "drop a (take L frs) = take (L - a) (drop a frs)" by (rule drop_take)
    moreover have "ss ! k \<le> L - a" using ab bL by simp
    ultimately show ?thesis by (simp add: min_def)
  qed
  finally have ch: "chunks (map payload (take L frs)) ss ! k
      = map payload (take (ss ! k) (drop a frs))" .
  have "tfrecord_iterator choice f (Some rows) (Some (int k, int C)) clip None rs
      = (map payload (take (ss ! k) (drop a frs)), None)"
    by (simp add: tfrecord_iterator_def c sr rr)
  then show ?thesis by (simp add: ch L_def[symmetric] ss_def[symmetric])
qed

text \<open>A file of three frames of one payload byte each, with its index.\<close>

definition frames_demo :: "frame list" where
  "frames_demo =
     [\<lparr>payload = [7], length_crc = [0, 0, 0, 0], data_crc = [0, 0, 0, 0]\<rparr>,
      \<lparr>payload = [8], length_crc = [0, 0, 0, 0], data_crc = [0, 0, 0, 0]\<rparr>,
      \<lparr>payload = [9], length_crc = [0, 0, 0, 0], data_crc = [0, 0, 0, 0]\<rparr>]"

definition file_demo :: tf_file where
  "file_demo = \<lparr>file_bytes = frames_bytes frames_demo, file_size = 51\<rparr>"

definition rows_demo :: "(nat \<times> nat) list" where
  "rows_demo = [(0, 17), (17, 17), (34, 17)]"

lemma length_frames_bytes:
  "list_all wf_frame frs \<Longrightarrow>
   length (frames_bytes frs) = sum_list (map (\<lambda>fr. 16 + length (payload fr)) frs)"
  by (induction frs) (simp_all add: frames_bytes_def length_frame_bytes)

lemma indexed_demo: "indexed_file frames_demo file_demo rows_demo"
proof -
  have wf: "list_all wf_frame frames_demo" by (simp add: frames_demo_def wf_frame_def)
  have w: "list_all wf_frame (take i frames_demo)" for i
    using wf unfolding list_all_iff by (meson in_set_takeD)
  have u: "[0..<length frames_demo] = [0, 1, 2]"
    by (simp add: frames_demo_def upt_rec)
  have o0: "frame_offset frames_demo 0 = 0" by (rule frame_offset_0)
  have o1: "frame_offset frames_demo 1 = 17"
    by (simp add: frame_offset_def length_frames_bytes[OF w]) (simp add: frames_demo_def)
  have o2: "frame_offset frames_demo 2 = 34"
    by (simp add: frame_offset_def length_frames_bytes[OF w]) (simp add: frames_demo_def)
  have l: "length (frames_bytes frames_demo) = 51"
    by (simp add: length_frames_bytes[OF wf]) (simp add: frames_demo_def)
  have o1': "frame_offset frames_demo (Suc 0) = 17" using o1 by simp
  have m: "map (frame_offset frames_demo) [0..<length frames_demo] = [0, 17, 34]"
    by (simp only: u list.map o0 o1 o2)
  have r: "map fst rows_demo = [0, 17, 34]" by (simp add: rows_demo_def)
  show ?thesis
    unfolding indexed_file_def
    by (intro conjI) (simp_all add: wf m r l file_demo_def)
qed

text \<open>
  C5, amended. For an uncompressed record file with a valid index of M entries, a clip
  value within the index (absent, or between -M and M) that keeps L entries, and a
  shard count C with 1 \<le> C \<le> L: the unsharded iteration yields the first L records and
  raises nothing; shard k (for every k below C) raises nothing and yields part k of the
  \<open>array_split\<close> of those L records into C parts, a contiguous run of records; the shards'
  records, concatenated in the order of the shards, are the records of the unsharded
  iteration, and so are they as multisets (no record twice, none left out).
\<close>

theorem sharding_covers_clipped:
  assumes idx: "indexed_file frs f rows" and ok: "clip_ok (length frs) clip"
    and C: "0 < C" "C \<le> kept (length frs) clip"
  shows "tfrecord_iterator choice f (Some rows) None clip None False
           = (map payload (take (kept (length frs) clip) frs), None)
     \<and> (\<forall>k. k < C \<longrightarrow>
           tfrecord_iterator choice f (Some rows) (Some (int k, int C)) clip None rs
             = (chunks (map payload (take (kept (length frs) clip) frs))
                  (section_sizes (kept (length frs) clip) C) ! k, None))
     \<and> concat (map (\<lambda>k. fst (tfrecord_iterator choice f (Some rows) (Some (int k, int C))
                                clip None rs)) [0..<C])
           = fst (tfrecord_iterator choice f (Some rows) None clip None False)
     \<and> sum_list (map (\<lambda>k. mset (fst (tfrecord_iterator choice f (Some rows)
                                (Some (int k, int C)) clip None rs))) [0..<C])
           = mset (fst (tfrecord_iterator choice f (Some rows) None clip None False))"
proof -
  define L where "L = kept (length frs) clip"
  define X where "X = map payload (take L frs)"
  define ss where "ss = section_sizes L C"
  define it where "it = (\<lambda>k. tfrecord_iterator choice f (Some rows) (Some (int k, int C))
                                clip None rs)"
  have LM: "L \<le> length frs" unfolding L_def using ok by (rule kept_le)
  have u: "tfrecord_iterator choice f (Some rows) None clip None False = (X, None)"
    unfolding X_def L_def by (rule iterator_unsharded[OF idx ok])
  have s: "it k = (chunks X ss ! k, None)" if "k < C" for k
    unfolding it_def X_def ss_def L_def by (rule iterator_shard[OF idx ok C that])
  have ls: "length (chunks X ss) = C"
    using C(1) by (simp add: length_chunks ss_def length_section_sizes)
  have "map (\<lambda>k. fst (it k)) [0..<C] = map (\<lambda>k. chunks X ss ! k) [0..<C]"
    using s by simp
  also have "\<dots> = chunks X ss" using ls map_nth[of "chunks X ss"] by simp
  finally have m: "map (\<lambda>k. fst (it k)) [0..<C] = chunks X ss" .
  have "sum_list ss = length X" using C(1) LM by (simp add: ss_def sum_section_sizes X_def)
  then have cc: "concat (chunks X ss) = X" by (rule concat_chunks)
  have fu: "fst (tfrecord_iterator choice f (Some rows) None clip None False) = X"
    by (simp add: u)
  have p3: "concat (map (\<lambda>k. fst (it k)) [0..<C])
      = fst (tfrecord_iterator choice f (Some rows) None clip None False)"
    by (simp only: m cc fu)
  have "sum_list (map (\<lambda>k. mset (fst (it k))) [0..<C])
      = sum_list (map mset (map (\<lambda>k. fst (it k)) [0..<C]))" by (simp add: comp_def)
  also have "\<dots> = mset (concat (map (\<lambda>k. fst (it k)) [0..<C]))" by (simp add: mset_concat)
  finally have p4: "sum_list (map (\<lambda>k. mset (fst (it k))) [0..<C])
      = mset (fst (tfrecord_iterator choice f (Some rows) None clip None False))"
    by (simp only: p3)
  have p2: "\<forall>k. k < C \<longrightarrow> it k = (chunks X ss ! k, None)" using s by simp
  from u[unfolded X_def L_def] p2[unfolded it_def X_def ss_def L_def]
    p3[unfolded it_def] p4[unfolded it_def]
  show ?thesis by (intro conjI)
qed

theorem sharding_covers_clipped_witness:
  "tfrecord_iterator hd file_demo (Some rows_demo) None None None False
     = ([[7], [8], [9]], None)
   \<and> tfrecord_iterator hd file_demo (Some rows_demo) (Some (0, 2)) None None False
     = ([[7], [8]], None)
   \<and> tfrecord_iterator hd file_demo (Some rows_demo) (Some (1, 2)) None None False
     = ([[9]], None)"
proof -
  have ok: "clip_ok (length frames_demo) None" by (simp add: clip_ok_def)
  have k: "kept (length frames_demo) None = 3" by (simp add: kept_def frames_demo_def)
  have C: "(0::nat) < 2" "(2::nat) \<le> kept (length frames_demo) None" using k by simp_all
  have ss: "section_sizes 3 2 = [2, 1]"
    by code_simp
  have X: "map payload (take 3 frames_demo) = [[7], [8], [9]]"
    by (simp add: frames_demo_def)
  have ch: "chunks [[7], [8], [9::nat]] [2, 1] = [[[7], [8]], [[9]]]"
    by code_simp
  note t = sharding_covers_clipped[OF indexed_demo ok C, of hd False, unfolded k ss X ch]
  note a = t[THEN conjunct1]
  note sh = t[THEN conjunct2, THEN conjunct1, rule_format]
  have "tfrecord_iterator hd file_demo (Some rows_demo) (Some (int 0, int 2)) None None False
      = ([[[7], [8]], [[9]]] ! 0, None)" by (rule sh) simp
  then have b: "tfrecord_iterator hd file_demo (Some rows_demo) (Some (0, 2)) None None False
     = ([[7], [8]], None)" by simp
  have "tfrecord_iterator hd file_demo (Some rows_demo) (Some (int 1, int 2)) None None False
      = ([[[7], [8]], [[9]]] ! 1, None)" by (rule sh) simp
  then have c: "tfrecord_iterator hd file_demo (Some rows_demo) (Some (1, 2)) None None False
     = ([[9]], None)" by simp
  from a b c show ?thesis by (intro conjI)
qed

text \<open>
  C5, as stated, fails: with an index of M = 3 entries, clip = 1 and C = 2 shards
  (C \<le> M), the unsharded clipped iteration yields one record, and both shards raise
  \<open>IndexError\<close> without yielding anything, the second part of the clipped index being
  empty.
\<close>

theorem sharding_clip_counterexample:
  "indexed_file frames_demo file_demo rows_demo
   \<and> tfrecord_iterator hd file_demo (Some rows_demo) None (Some 1) None False = ([[7]], None)
   \<and> tfrecord_iterator hd file_demo (Some rows_demo) (Some (0, 2)) (Some 1) None False
       = ([], Some IndexError)
   \<and> tfrecord_iterator hd file_demo (Some rows_demo) (Some (1, 2)) (Some 1) None False
       = ([], Some IndexError)"
proof -
  have ok: "clip_ok (length frames_demo) (Some 1)" by (simp add: clip_ok_def frames_demo_def)
  have k: "kept (length frames_demo) (Some 1) = 1" by (simp add: kept_def)
  have u: "tfrecord_iterator hd file_demo (Some rows_demo) None (Some 1) None False = ([[7]], None)"
    using iterator_unsharded[OF indexed_demo ok, of hd, unfolded k]
    by (simp add: frames_demo_def)
  have ci: "clip_index (map fst rows_demo) (Some 1) = Inr (Some 17, [0])"
    by (simp add: clip_index_def rows_demo_def py_index_def slice_to_def bind_err_def Let_def)
  have "section_sizes 1 2 = [1, 0]" by code_simp
  then have sp: "array_split [0::nat] 2 = Inr [[0], []]"
    by (simp add: array_split_def)
  have s0: "shard_range [0] (Some 17) 0 2 = Inl IndexError"
    by (simp add: shard_range_def sp bind_err_def py_index_def Let_def)
  have s1: "shard_range [0] (Some 17) 1 2 = Inl IndexError"
    by (simp add: shard_range_def sp bind_err_def py_index_def Let_def)
  have a: "tfrecord_iterator hd file_demo (Some rows_demo) (Some (0, 2)) (Some 1) None False
       = ([], Some IndexError)"
    by (simp add: tfrecord_iterator_def ci s0 raised_def)
  have b: "tfrecord_iterator hd file_demo (Some rows_demo) (Some (1, 2)) (Some 1) None False
       = ([], Some IndexError)"
    by (simp add: tfrecord_iterator_def ci s1 raised_def)
  from indexed_demo u a b show ?thesis by (intro conjI)
qed

end
